theory Spec2Isabelle
  imports
    Main
    "HOL-Library.Multiset"
    "HOL-Library.AList"
    "HOL-Library.Char_ord"
    "HOL-Library.List_Lexorder"
begin

section \<open>Data model of \<^verbatim>\<open>main.go\<close>\<close>

text \<open>
  \<^verbatim>\<open>time.Time\<close> as the instant it denotes: seconds since January 1 of year 1 and the
  nanoseconds within the second. The values here are decoded from front matter, so they
  carry no monotonic clock reading; the location is not part of the instant and
  \<^verbatim>\<open>After\<close> does not read it. The zero value is second 0, nanosecond 0.
\<close>

record Time =
  sec :: int
  nsec :: int

definition After :: "Time \<Rightarrow> Time \<Rightarrow> bool" where
  "After t u = (sec t > sec u \<or> sec t = sec u \<and> nsec t > nsec u)"

record PostMetadata =
  Slug :: string
  Title :: string
  Description :: string
  Date :: Time
  Language :: string
  Tags :: "string list"

record PostData =
  Metadata :: PostMetadata
  Content :: string
  Page :: string

record IndexData =
  Posts :: "PostData list"
  Page :: string

text \<open>The anonymous struct of \<^verbatim>\<open>ParseAboutPage\<close>.\<close>

record AboutData =
  Page :: string
  Title :: string

text \<open>What a template is executed against: one of the three shapes the program passes.\<close>

datatype tdata = PostPage PostData | IndexPage IndexData | AboutPage AboutData

text \<open>Go's zero values of the two structs (\<^verbatim>\<open>PostData{}\<close>, \<^verbatim>\<open>var meta PostMetadata\<close>).\<close>

definition zero_Time :: Time where
  "zero_Time = \<lparr>sec = 0, nsec = 0\<rparr>"

definition zero_PostMetadata :: PostMetadata where
  "zero_PostMetadata =
     \<lparr>Slug = [], Title = [], Description = [], Date = zero_Time, Language = [], Tags = []\<rparr>"

definition zero_PostData :: PostData where
  "zero_PostData = \<lparr>Metadata = zero_PostMetadata, Content = [], Page = []\<rparr>"

section \<open>The sort step\<close>

text \<open>
  \<^verbatim>\<open>sort.Slice\<close> belongs to Go's standard library. The program relies on what the
  library documents: the slice is rearranged (nothing added, nothing lost) so that it is
  sorted by the given \<^verbatim>\<open>less\<close>, and the order of elements that \<^verbatim>\<open>less\<close> does not
  separate is not promised. The sort is therefore a parameter, and the documented
  behaviour is a predicate on it. \<^verbatim>\<open>less\<close> has to be a strict weak ordering.
\<close>

definition strict_weak_order :: "('a \<Rightarrow> 'a \<Rightarrow> bool) \<Rightarrow> bool" where
  "strict_weak_order lt =
     ((\<forall>a. \<not> lt a a) \<and>
      (\<forall>a b c. lt a b \<and> lt b c \<longrightarrow> lt a c) \<and>
      (\<forall>a b c. lt a c \<longrightarrow> lt a b \<or> lt b c))"

definition sort_Slice_contract :: "(('a \<Rightarrow> 'a \<Rightarrow> bool) \<Rightarrow> 'a list \<Rightarrow> 'a list) \<Rightarrow> bool" where
  "sort_Slice_contract srt =
     (\<forall>lt xs. strict_weak_order lt \<longrightarrow>
        mset (srt lt xs) = mset xs \<and> sorted_wrt (\<lambda>a b. \<not> lt b a) (srt lt xs))"

text \<open>The comparison closure of \<^verbatim>\<open>main\<close>, lines 69 to 71, on the elements it reads.\<close>

definition date_After :: "PostData \<Rightarrow> PostData \<Rightarrow> bool" where
  "date_After p q = After (Date (Metadata p)) (Date (Metadata q))"

text \<open>
  One sort with this behaviour, used in the examples: insertion sort. Element \<open>i\<close> moves
  left while it is \<^verbatim>\<open>less\<close> than its left neighbour. The sorted prefix is kept
  reversed, so that the left neighbour is the head.
\<close>

fun insert_left :: "('a \<Rightarrow> 'a \<Rightarrow> bool) \<Rightarrow> 'a \<Rightarrow> 'a list \<Rightarrow> 'a list" where
  "insert_left lt x [] = [x]"
| "insert_left lt x (y # ys) =
     (if lt x y then y # insert_left lt x ys else x # y # ys)"

definition insertionSort :: "('a \<Rightarrow> 'a \<Rightarrow> bool) \<Rightarrow> 'a list \<Rightarrow> 'a list" where
  "insertionSort lt xs = rev (foldl (\<lambda>acc x. insert_left lt x acc) [] xs)"

section \<open>Strings and paths\<close>

text \<open>\<^verbatim>\<open>strings.HasPrefix\<close>, \<^verbatim>\<open>TrimPrefix\<close>, \<^verbatim>\<open>HasSuffix\<close>, \<^verbatim>\<open>TrimSuffix\<close>, on bytes.\<close>

definition HasPrefix :: "string \<Rightarrow> string \<Rightarrow> bool" where
  "HasPrefix s prefix = (length s \<ge> length prefix \<and> take (length prefix) s = prefix)"

definition TrimPrefix :: "string \<Rightarrow> string \<Rightarrow> string" where
  "TrimPrefix s prefix = (if HasPrefix s prefix then drop (length prefix) s else s)"

definition HasSuffix :: "string \<Rightarrow> string \<Rightarrow> bool" where
  "HasSuffix s suffix =
     (length s \<ge> length suffix \<and> drop (length s - length suffix) s = suffix)"

definition TrimSuffix :: "string \<Rightarrow> string \<Rightarrow> string" where
  "TrimSuffix s suffix = (if HasSuffix s suffix then take (length s - length suffix) s else s)"

text \<open>
  Paths are slash-separated strings relative to the working directory, taken as
  written (the program only uses constant, already clean paths and names read from a
  directory). \<open>parent_dir\<close> is the path up to the last slash, empty for a path without
  one, where it stands for the working directory; \<open>Base\<close> is the last element.
\<close>

definition parent_dir :: "string \<Rightarrow> string" where
  "parent_dir p =
     (if CHR ''/'' \<in> set p then rev (tl (dropWhile (\<lambda>c. c \<noteq> CHR ''/'') (rev p))) else [])"

definition Base :: "string \<Rightarrow> string" where
  "Base p = rev (takeWhile (\<lambda>c. c \<noteq> CHR ''/'') (rev p))"

definition under :: "string \<Rightarrow> string \<Rightarrow> bool" where
  "under dir p = (p = dir \<or> HasPrefix p (dir @ ''/''))"

section \<open>Errors and the file system\<close>

datatype errno = ENOENT | EEXIST | EISDIR | ENOTDIR | EBADF | EIO

text \<open>
  Error values: an \<^verbatim>\<open>*os.PathError\<close> (operation, path, cause), an error of one of the
  three libraries, and \<^verbatim>\<open>fmt.Errorf(prefix + "%v", err)\<close>.
\<close>

datatype error =
    PathError string string errno
  | LibraryError string
  | Errorf string error

text \<open>
  The file tree: every path that exists, with what is there. A path is listed once.
  The order of the list is the order in which a directory hands out its entries.
\<close>

datatype node = File string | Dir

type_synonym FS = "(string \<times> node) list"

definition dir_exists :: "FS \<Rightarrow> string \<Rightarrow> bool" where
  "dir_exists fs d = (d = [] \<or> map_of fs d = Some Dir)"

text \<open>
  The world outside the program: which system calls fail for reasons the file tree does
  not show (permissions, a full disk), how many bytes a failing write to a path still
  puts down, and the three libraries, each a function of its input. A system call that
  fails this way leaves the tree as it was.
\<close>

datatype io_op =
    RemoveAllOp string | MkdirAllOp string | MkdirOp string
  | OpenOp string | CreateOp string | ReadOp string | WriteOp string

datatype Template = Template "(string \<times> string) list"

record env =
  fault :: "io_op \<Rightarrow> bool"
  written :: "string \<Rightarrow> nat"
  frontmatter_Parse :: "string \<Rightarrow> error + (PostMetadata \<times> string)"
  Convert :: "string \<Rightarrow> error + string"
  template_Parse :: "string \<Rightarrow> string \<Rightarrow> error option"
  Execute :: "Template \<Rightarrow> tdata \<Rightarrow> string \<times> error option"
  sort_Slice :: "(PostData \<Rightarrow> PostData \<Rightarrow> bool) \<Rightarrow> PostData list \<Rightarrow> PostData list"

text \<open>\<^verbatim>\<open>os.RemoveAll\<close>: the path and everything below it goes; a missing path is no error.\<close>

definition os_RemoveAll :: "env \<Rightarrow> FS \<Rightarrow> string \<Rightarrow> error + FS" where
  "os_RemoveAll E fs path =
     (if fault E (RemoveAllOp path) then Inl (PathError ''unlinkat'' path EIO)
      else Inr (filter (\<lambda>(p, n). \<not> under path p) fs))"

text \<open>
  \<^verbatim>\<open>os.MkdirAll\<close>: each missing directory on the way to the path is made, an existing
  directory is kept, a file in the way is an error.
\<close>

definition path_ancestors :: "string \<Rightarrow> string list" where
  "path_ancestors p =
     map (\<lambda>i. take i p) (filter (\<lambda>i. i = length p \<or> p ! i = CHR ''/'') [1..<Suc (length p)])"

fun mkdir_missing :: "FS \<Rightarrow> string list \<Rightarrow> error + FS" where
  "mkdir_missing fs [] = Inr fs"
| "mkdir_missing fs (d # ds) =
     (case map_of fs d of
        Some Dir \<Rightarrow> mkdir_missing fs ds
      | Some (File c) \<Rightarrow> Inl (PathError ''mkdir'' d ENOTDIR)
      | None \<Rightarrow> mkdir_missing (fs @ [(d, Dir)]) ds)"

definition os_MkdirAll :: "env \<Rightarrow> FS \<Rightarrow> string \<Rightarrow> error + FS" where
  "os_MkdirAll E fs path =
     (if fault E (MkdirAllOp path) then Inl (PathError ''mkdir'' path EIO)
      else mkdir_missing fs (path_ancestors path))"

definition os_Mkdir :: "env \<Rightarrow> FS \<Rightarrow> string \<Rightarrow> error + FS" where
  "os_Mkdir E fs path =
     (if fault E (MkdirOp path) then Inl (PathError ''mkdir'' path EIO)
      else (case map_of fs path of
              Some n \<Rightarrow> Inl (PathError ''mkdir'' path EEXIST)
            | None \<Rightarrow>
                if dir_exists fs (parent_dir path) then Inr (fs @ [(path, Dir)])
                else Inl (PathError ''mkdir'' path ENOENT)))"

text \<open>
  An open file is known by its path. \<^verbatim>\<open>os.Open\<close> succeeds on a directory too; reading
  it is what fails.
\<close>

definition os_Open :: "env \<Rightarrow> FS \<Rightarrow> string \<Rightarrow> error + string" where
  "os_Open E fs path =
     (if fault E (OpenOp path) then Inl (PathError ''open'' path EIO)
      else (case map_of fs path of
              None \<Rightarrow> Inl (PathError ''open'' path ENOENT)
            | Some n \<Rightarrow> Inr path))"

definition io_ReadAll :: "env \<Rightarrow> FS \<Rightarrow> string \<Rightarrow> error + string" where
  "io_ReadAll E fs f =
     (if fault E (ReadOp f) then Inl (PathError ''read'' f EIO)
      else (case map_of fs f of
              Some (File c) \<Rightarrow> Inr c
            | Some Dir \<Rightarrow> Inl (PathError ''read'' f EISDIR)
            | None \<Rightarrow> Inl (PathError ''read'' f EBADF)))"

text \<open>\<^verbatim>\<open>os.Create\<close>: the file exists and is empty afterwards.\<close>

definition os_Create :: "env \<Rightarrow> FS \<Rightarrow> string \<Rightarrow> error + (FS \<times> string)" where
  "os_Create E fs path =
     (if fault E (CreateOp path) then Inl (PathError ''open'' path EIO)
      else (case map_of fs path of
              Some Dir \<Rightarrow> Inl (PathError ''open'' path EISDIR)
            | _ \<Rightarrow>
                if dir_exists fs (parent_dir path)
                then Inr (AList.update path (File []) fs, path)
                else Inl (PathError ''open'' path ENOENT)))"

text \<open>
  Writing bytes to an open file appends them. A write that fails has still put down
  the first \<open>written E f\<close> bytes.
\<close>

definition file_Write :: "env \<Rightarrow> FS \<Rightarrow> string \<Rightarrow> string \<Rightarrow> FS \<times> error option" where
  "file_Write E fs f b =
     (case map_of fs f of
        Some (File c) \<Rightarrow>
          if fault E (WriteOp f)
          then (AList.update f (File (c @ take (written E f) b)) fs,
                Some (PathError ''write'' f EIO))
          else (AList.update f (File (c @ b)) fs, None)
      | _ \<Rightarrow> (fs, Some (PathError ''write'' f EBADF)))"

definition io_Copy :: "env \<Rightarrow> FS \<Rightarrow> string \<Rightarrow> string \<Rightarrow> FS \<times> error option" where
  "io_Copy E fs dst src =
     (case io_ReadAll E fs src of
        Inl err \<Rightarrow> (fs, Some err)
      | Inr b \<Rightarrow> file_Write E fs dst b)"

text \<open>
  \<^verbatim>\<open>filepath.Glob("posts/*.md")\<close>: the entries of the directory \<^verbatim>\<open>posts\<close> whose name
  ends in \<^verbatim>\<open>.md\<close>, joined to the directory, in sorted order. The star does not match a
  slash. The pattern is well formed, so the call has no error.
\<close>

definition Glob_match :: "string \<Rightarrow> bool" where
  "Glob_match p =
     (HasPrefix p ''posts/'' \<and> CHR ''/'' \<notin> set (drop 6 p) \<and> HasSuffix (drop 6 p) ''.md'')"

definition Glob :: "FS \<Rightarrow> string list" where
  "Glob fs =
     (if map_of fs ''posts'' = Some Dir then sort (filter Glob_match (map fst fs)) else [])"

section \<open>The functions of \<^verbatim>\<open>main.go\<close>\<close>

text \<open>
  A call either returns or panics. A function with a Go \<^verbatim>\<open>error\<close> result returns
  \<open>None\<close> for \<^verbatim>\<open>nil\<close>.
\<close>

datatype 'a result = Ret 'a | Panics error

definition Read :: "env \<Rightarrow> FS \<Rightarrow> string \<Rightarrow> error + string" where
  "Read E fs slug =
     (case os_Open E fs (''posts/'' @ slug @ ''.md'') of
        Inl err \<Rightarrow> Inl err
      | Inr f \<Rightarrow>
          (case io_ReadAll E fs f of
             Inl err \<Rightarrow> Inl err
           | Inr b \<Rightarrow> Inr b))"

definition copyFile :: "env \<Rightarrow> FS \<Rightarrow> string \<Rightarrow> string \<Rightarrow> FS \<times> error option" where
  "copyFile E fs srcPath dstPath =
     (case os_Open E fs srcPath of
        Inl err \<Rightarrow> (fs, Some err)
      | Inr sourceFile \<Rightarrow>
          (case os_Create E fs dstPath of
             Inl err \<Rightarrow> (fs, Some err)
           | Inr (fs1, destFile) \<Rightarrow>
               (case io_Copy E fs1 destFile sourceFile of
                  (fs2, Some err) \<Rightarrow> (fs2, Some err)
                | (fs2, None) \<Rightarrow> (fs2, None))))"

definition getpostData :: "env \<Rightarrow> string \<Rightarrow> string \<times> PostData \<times> error option" where
  "getpostData E postMarkdown =
     (case frontmatter_Parse E postMarkdown of
        Inl err \<Rightarrow> ([], zero_PostData, Some (Errorf ''post parse error: '' err))
      | Inr (meta, rest) \<Rightarrow>
          (rest, \<lparr>Metadata = meta, Content = [], Page = []\<rparr>, None))"

text \<open>The loop of \<^verbatim>\<open>getAllpostData\<close> over the file names still to visit.\<close>

fun getAllpostData_loop ::
  "env \<Rightarrow> FS \<Rightarrow> string list \<Rightarrow> PostData list \<Rightarrow> PostData list \<times> error option" where
  "getAllpostData_loop E fs [] posts = (posts, None)"
| "getAllpostData_loop E fs (filename # filenames) posts =
     (let slug = TrimSuffix (TrimPrefix filename ''posts/'') ''.md'' in
      case Read E fs slug of
        Inl err \<Rightarrow> (posts, Some (Errorf ''post Read error: '' err))
      | Inr postMarkdown \<Rightarrow>
          (case getpostData E postMarkdown of
             (rest, postData, Some err) \<Rightarrow> (posts, Some err)
           | (rest, postData, None) \<Rightarrow>
               (case Convert E rest of
                  Inl err \<Rightarrow> (posts, Some (Errorf ''Markdown to html convert error: '' err))
                | Inr buf \<Rightarrow>
                    getAllpostData_loop E fs filenames
                      (posts @ [postData\<lparr>Content := buf,
                                 Metadata := (Metadata postData)\<lparr>Slug := slug\<rparr>\<rparr>]))))"

definition getAllpostData :: "env \<Rightarrow> FS \<Rightarrow> PostData list \<times> error option" where
  "getAllpostData E fs = getAllpostData_loop E fs (Glob fs) []"

text \<open>
  \<^verbatim>\<open>template.ParseFiles\<close> reads and parses the files one after the other and stops at
  the first that cannot be read or parsed; \<^verbatim>\<open>template.Must\<close> panics on its error.
\<close>

fun ParseFiles_loop ::
  "env \<Rightarrow> FS \<Rightarrow> string list \<Rightarrow> (string \<times> string) list \<Rightarrow> error + Template" where
  "ParseFiles_loop E fs [] parsed = Inr (Template parsed)"
| "ParseFiles_loop E fs (filename # filenames) parsed =
     (case os_Open E fs filename of
        Inl err \<Rightarrow> Inl err
      | Inr f \<Rightarrow>
          (case io_ReadAll E fs f of
             Inl err \<Rightarrow> Inl err
           | Inr b \<Rightarrow>
               (case template_Parse E (Base filename) b of
                  Some err \<Rightarrow> Inl err
                | None \<Rightarrow> ParseFiles_loop E fs filenames (parsed @ [(Base filename, b)]))))"

definition ParseFiles :: "env \<Rightarrow> FS \<Rightarrow> string list \<Rightarrow> error + Template" where
  "ParseFiles E fs filenames =
     (if filenames = []
      then Inl (LibraryError ''html/template: no files named in call to ParseFiles'')
      else ParseFiles_loop E fs filenames [])"

definition Must :: "error + Template \<Rightarrow> Template result" where
  "Must r = (case r of Inl err \<Rightarrow> Panics err | Inr t \<Rightarrow> Ret t)"

text \<open>
  \<^verbatim>\<open>tpl.Execute(file, data)\<close>: the library yields the text it produced and whether it
  stopped with an error; the text goes to the file, and a failed write is the error.
\<close>

definition tpl_Execute ::
  "env \<Rightarrow> FS \<Rightarrow> Template \<Rightarrow> string \<Rightarrow> tdata \<Rightarrow> FS \<times> error option" where
  "tpl_Execute E fs tpl file data =
     (case Execute E tpl data of
        (out, xerr) \<Rightarrow>
          (case file_Write E fs file out of
             (fs1, Some werr) \<Rightarrow> (fs1, Some werr)
           | (fs1, None) \<Rightarrow> (fs1, xerr)))"

fun ParsepostsMDToHTML_loop ::
  "env \<Rightarrow> Template \<Rightarrow> FS \<Rightarrow> PostData list \<Rightarrow> FS \<times> error option" where
  "ParsepostsMDToHTML_loop E tpl fs [] = (fs, None)"
| "ParsepostsMDToHTML_loop E tpl fs (post # postsData) =
     (case os_Create E fs (''public/posts/'' @ Slug (Metadata post) @ ''.html'') of
        Inl err \<Rightarrow> (fs, Some (Errorf ''HTML File creation error: '' err))
      | Inr (fs1, file) \<Rightarrow>
          (case tpl_Execute E fs1 tpl file (PostPage post) of
             (fs2, Some err) \<Rightarrow> (fs2, Some (Errorf ''Tempalate Execute error: '' err))
           | (fs2, None) \<Rightarrow> ParsepostsMDToHTML_loop E tpl fs2 postsData))"

definition ParsepostsMDToHTML ::
  "env \<Rightarrow> FS \<Rightarrow> PostData list \<Rightarrow> FS \<times> error option result" where
  "ParsepostsMDToHTML E fs postsData =
     (case Must (ParseFiles E fs
              [''template/post.html'', ''template/header.html'', ''template/footer.html'']) of
        Panics err \<Rightarrow> (fs, Panics err)
      | Ret tpl \<Rightarrow>
          (case ParsepostsMDToHTML_loop E tpl fs postsData of
             (fs1, err) \<Rightarrow> (fs1, Ret err)))"

definition ParseIndexTemplateToHTML ::
  "env \<Rightarrow> FS \<Rightarrow> PostData list \<Rightarrow> FS \<times> error option result" where
  "ParseIndexTemplateToHTML E fs postsData =
     (case Must (ParseFiles E fs
              [''template/index.html'', ''template/header.html'', ''template/footer.html'']) of
        Panics err \<Rightarrow> (fs, Panics err)
      | Ret tpl \<Rightarrow>
          (case os_Create E fs ''public/index.html'' of
             Inl err \<Rightarrow> (fs, Ret (Some (Errorf ''HTML File creation error: '' err)))
           | Inr (fs1, file) \<Rightarrow>
               (let indexData = \<lparr>Posts = postsData, Page = ''index''\<rparr> in
                case tpl_Execute E fs1 tpl file (IndexPage indexData) of
                  (fs2, Some err) \<Rightarrow> (fs2, Ret (Some (Errorf ''Tempalate Execute error: '' err)))
                | (fs2, None) \<Rightarrow> (fs2, Ret None))))"

definition ParseAboutPage :: "env \<Rightarrow> FS \<Rightarrow> FS \<times> error option result" where
  "ParseAboutPage E fs =
     (case Must (ParseFiles E fs
              [''template/about.html'', ''template/header.html'', ''template/footer.html'']) of
        Panics err \<Rightarrow> (fs, Panics err)
      | Ret tpl \<Rightarrow>
          (case os_Create E fs ''public/about.html'' of
             Inl err \<Rightarrow> (fs, Ret (Some err))
           | Inr (fs1, file) \<Rightarrow>
               (let data = \<lparr>Page = ''about'', Title = ''About me''\<rparr> in
                case tpl_Execute E fs1 tpl file (AboutPage data) of
                  (fs2, err) \<Rightarrow> (fs2, Ret err))))"

text \<open>
  How the process ends: exit status 0, \<^verbatim>\<open>log.Fatal\<close> (the message is logged and the
  status is 1), or an unrecovered panic (status 2).
\<close>

datatype exit = Exit0 | Fatal error | Panic error

definition main :: "env \<Rightarrow> FS \<Rightarrow> exit \<times> FS" where
  "main E fs0 =
     (case os_RemoveAll E fs0 ''public'' of
        Inl err \<Rightarrow> (Fatal err, fs0)
      | Inr fs1 \<Rightarrow>
     (case os_MkdirAll E fs1 ''public'' of
        Inl err \<Rightarrow> (Fatal err, fs1)
      | Inr fs2 \<Rightarrow>
     (case os_Mkdir E fs2 ''public/posts'' of
        Inl err \<Rightarrow> (Fatal err, fs2)
      | Inr fs3 \<Rightarrow>
     (case copyFile E fs3 ''static/style.css'' ''public/style.css'' of
        (fs4, Some err) \<Rightarrow> (Fatal (Errorf ''Error copying styles: '' err), fs4)
      | (fs4, None) \<Rightarrow>
     (case getAllpostData E fs4 of
        (postsData, Some err) \<Rightarrow> (Fatal err, fs4)
      | (postsData, None) \<Rightarrow>
     (let postsData = sort_Slice E date_After postsData in
      case ParsepostsMDToHTML E fs4 postsData of
        (fs5, Panics err) \<Rightarrow> (Panic err, fs5)
      | (fs5, Ret (Some err)) \<Rightarrow> (Fatal err, fs5)
      | (fs5, Ret None) \<Rightarrow>
     (case ParseIndexTemplateToHTML E fs5 postsData of
        (fs6, Panics err) \<Rightarrow> (Panic err, fs6)
      | (fs6, Ret (Some err)) \<Rightarrow> (Fatal err, fs6)
      | (fs6, Ret None) \<Rightarrow>
     (case ParseAboutPage E fs6 of
        (fs7, Panics err) \<Rightarrow> (Panic err, fs7)
      | (fs7, Ret (Some err)) \<Rightarrow> (Fatal err, fs7)
      | (fs7, Ret None) \<Rightarrow> (Exit0, fs7)))))))))"

text \<open>
  For the proofs: the part of a tree that is not the output directory. It is what
  \<^verbatim>\<open>os.RemoveAll("public")\<close> leaves.
\<close>

definition outside :: "FS \<Rightarrow> FS" where
  "outside fs = filter (\<lambda>(p, n). \<not> under ''public'' p) fs"

text \<open>The slug of a discovered file name, as line 98 and 99 compute it.\<close>

definition slug_of :: "string \<Rightarrow> string" where
  "slug_of filename = TrimSuffix (TrimPrefix filename ''posts/'') ''.md''"

text \<open>
  A template file that cannot be loaded: it is missing, or its text does not parse.
\<close>

definition template_missing_or_invalid :: "env \<Rightarrow> FS \<Rightarrow> string \<Rightarrow> bool" where
  "template_missing_or_invalid E fs f =
     (case map_of fs f of
        None \<Rightarrow> True
      | Some (File text) \<Rightarrow> template_Parse E (Base f) text \<noteq> None
      | Some Dir \<Rightarrow> False)"

text \<open>
  A post that fails at one of its load steps: reading the file, splitting the front
  matter, converting the body.
\<close>

definition post_load_fails :: "env \<Rightarrow> FS \<Rightarrow> string \<Rightarrow> bool" where
  "post_load_fails E fs filename =
     (case Read E fs (slug_of filename) of
        Inl err \<Rightarrow> True
      | Inr postMarkdown \<Rightarrow>
          (case frontmatter_Parse E postMarkdown of
             Inl err \<Rightarrow> True
           | Inr (meta, rest) \<Rightarrow> isl (Convert E rest)))"

section \<open>A concrete world for examples\<close>

text \<open>
  Small stand-ins for the three libraries, used where a statement is evaluated on a
  concrete tree. The front matter is the text before the first \<open>|\<close>: it becomes the
  title, the slug field is set to a value that never is a file name, and the date is the
  length of the title; a post without \<open>|\<close> does not parse. The converter wraps the body
  in a paragraph and rejects an empty body. A template file parses unless it is empty.
  Executing prints the content of a post, the titles of the index and the title of the
  about page. Nothing fails for outside reasons, and the sort is the insertion sort.
\<close>

definition example_Parse :: "string \<Rightarrow> error + (PostMetadata \<times> string)" where
  "example_Parse s =
     (if CHR ''|'' \<in> set s
      then Inr (\<lparr>Slug = ''front-matter-slug'',
                 Title = takeWhile (\<lambda>c. c \<noteq> CHR ''|'') s, Description = [],
                 Date = \<lparr>sec = int (length (takeWhile (\<lambda>c. c \<noteq> CHR ''|'') s)), nsec = 0\<rparr>,
                 Language = [], Tags = []\<rparr>,
                tl (dropWhile (\<lambda>c. c \<noteq> CHR ''|'') s))
      else Inl (LibraryError ''front matter''))"

definition example_Convert :: "string \<Rightarrow> error + string" where
  "example_Convert s = (if s = [] then Inl (LibraryError ''markdown'') else Inr (''<p>'' @ s @ ''</p>''))"

definition example_Execute :: "Template \<Rightarrow> tdata \<Rightarrow> string \<times> error option" where
  "example_Execute tpl d =
     (case d of
        PostPage p \<Rightarrow> (Content p, None)
      | IndexPage i \<Rightarrow> (concat (map (\<lambda>p. PostMetadata.Title (Metadata p) @ '';'') (Posts i)), None)
      | AboutPage a \<Rightarrow> (AboutData.Title a, None))"

definition example_env :: env where
  "example_env =
     \<lparr>fault = (\<lambda>op. False), written = (\<lambda>f. 0),
      frontmatter_Parse = example_Parse, Convert = example_Convert,
      template_Parse = (\<lambda>name text. if text = [] then Some (LibraryError ''template'') else None),
      Execute = example_Execute, sort_Slice = insertionSort\<rparr>"

definition example_fs :: FS where
  "example_fs =
     [(''posts'', Dir), (''posts/hello.md'', File ''Hello|# Hi''),
      (''template'', Dir), (''template/post.html'', File ''P''),
      (''template/index.html'', File ''I''), (''template/about.html'', File ''A''),
      (''template/header.html'', File ''H''), (''template/footer.html'', File ''F''),
      (''static'', Dir), (''static/style.css'', File ''body{}''),
      (''public'', Dir), (''public/stale.html'', File ''old'')]"


text \<open>The example tree without the footer template, the index layout, the about layout.\<close>

definition example_fs_no_footer :: FS where
  "example_fs_no_footer = filter (\<lambda>(p, n). p \<noteq> ''template/footer.html'') example_fs"

definition example_fs_no_index :: FS where
  "example_fs_no_index = filter (\<lambda>(p, n). p \<noteq> ''template/index.html'') example_fs"

definition example_fs_no_about :: FS where
  "example_fs_no_about = filter (\<lambda>(p, n). p \<noteq> ''template/about.html'') example_fs"

text \<open>
  The example world with a disk that fills up: a write to the copied stylesheet fails
  after three bytes. The example tree with a directory in the place of the stylesheet,
  and the example tree with a second post that has no front matter.
\<close>

definition example_env_disk_full :: env where
  "example_env_disk_full =
     example_env\<lparr>fault := (\<lambda>op. op = WriteOp ''public/style.css''), written := (\<lambda>f. 3)\<rparr>"

definition example_fs_style_dir :: FS where
  "example_fs_style_dir = AList.update ''static/style.css'' Dir example_fs"

definition example_fs_bad_post :: FS where
  "example_fs_bad_post = example_fs @ [(''posts/zz.md'', File ''no front matter'')]"

text \<open>
  What rendering one post does to the tree, seen as a map: the page of the post holds
  the text that executing the post layout on it prints.
\<close>

definition page_path :: "PostData \<Rightarrow> string" where
  "page_path post = ''public/posts/'' @ Slug (Metadata post) @ ''.html''"

definition put_page :: "env \<Rightarrow> Template \<Rightarrow> (string \<rightharpoonup> node) \<Rightarrow> PostData \<Rightarrow> (string \<rightharpoonup> node)" where
  "put_page E tpl m post = m(page_path post \<mapsto> File (fst (Execute E tpl (PostPage post))))"

text \<open>The example tree with a second, newer post.\<close>

definition example_fs_two_posts :: FS where
  "example_fs_two_posts = example_fs @ [(''posts/second.md'', File ''Second post|text'')]"




text \<open>The example tree without the stylesheet.\<close>

definition example_fs_no_style :: FS where
  "example_fs_no_style = filter (\<lambda>(p, n). p \<noteq> ''static/style.css'') example_fs"

text \<open>The example world in which the copied stylesheet cannot be created.\<close>

definition example_env_no_create :: env where
  "example_env_no_create = example_env\<lparr>fault := (\<lambda>op. op = CreateOp ''public/style.css'')\<rparr>"

section \<open>Properties of the sort step\<close>

lemma After_irrefl: "\<not> After t t"
  by (simp add: After_def)

lemma After_trans: "After t u \<Longrightarrow> After u v \<Longrightarrow> After t v"
  by (auto simp: After_def)

lemma After_total: "t \<noteq> u \<Longrightarrow> After t u \<or> After u t"
  by (cases t, cases u) (auto simp: After_def)

lemma After_negtrans: "After t v \<Longrightarrow> After t u \<or> After u v"
  by (auto simp: After_def)

lemma strict_weak_order_date_After: "strict_weak_order date_After"
  unfolding strict_weak_order_def date_After_def
  using After_irrefl After_trans After_negtrans by blast

lemma sorted_wrt_distinct_key:
  "sorted_wrt P xs \<Longrightarrow> distinct (map f xs) \<Longrightarrow> sorted_wrt (\<lambda>a b. P a b \<and> f a \<noteq> f b) xs"
  by (induction xs) auto

lemma distinct_map_mset_eq:
  assumes "mset ys = mset xs" and "distinct (map f xs)"
  shows "distinct (map f ys)"
proof -
  have "mset (map f ys) = mset (map f xs)"
    using assms(1) by simp
  then show ?thesis
    using assms(2) mset_eq_imp_distinct_iff by blast
qed

text \<open>The insertion sort meets the documented behaviour.\<close>

lemma mset_insert_left: "mset (insert_left lt x ys) = add_mset x (mset ys)"
  by (induction ys) auto

lemma set_insert_left: "set (insert_left lt x ys) = insert x (set ys)"
  by (induction ys) auto

lemma mset_foldl_insert_left:
  "mset (foldl (\<lambda>acc x. insert_left lt x acc) acc xs) = mset xs + mset acc"
  by (induction xs arbitrary: acc) (auto simp: mset_insert_left)

lemma sorted_insert_left:
  assumes swo: "strict_weak_order lt"
    and srt: "sorted_wrt (\<lambda>a b. \<not> lt a b) ys"
  shows "sorted_wrt (\<lambda>a b. \<not> lt a b) (insert_left lt x ys)"
  using srt
proof (induction ys)
  case Nil
  then show ?case by simp
next
  case (Cons y ys)
  have irrefl: "\<And>a. \<not> lt a a"
    and trans: "\<And>a b c. lt a b \<Longrightarrow> lt b c \<Longrightarrow> lt a c"
    and negtrans: "\<And>a b c. lt a c \<Longrightarrow> lt a b \<or> lt b c"
    using swo unfolding strict_weak_order_def by blast+
  show ?case
  proof (cases "lt x y")
    case True
    then have "\<not> lt y x"
      using irrefl trans by blast
    with True Cons show ?thesis
      by (auto simp: set_insert_left)
  next
    case False
    have "\<not> lt x z" if "z \<in> set ys" for z
    proof
      assume "lt x z"
      then have "lt x y \<or> lt y z"
        using negtrans by blast
      with False that Cons.prems show False by auto
    qed
    with False Cons.prems show ?thesis by auto
  qed
qed

lemma sorted_foldl_insert_left:
  "strict_weak_order lt \<Longrightarrow> sorted_wrt (\<lambda>a b. \<not> lt a b) acc \<Longrightarrow>
   sorted_wrt (\<lambda>a b. \<not> lt a b) (foldl (\<lambda>acc x. insert_left lt x acc) acc xs)"
  by (induction xs arbitrary: acc) (auto simp: sorted_insert_left)

lemma insertionSort_contract: "sort_Slice_contract insertionSort"
  unfolding sort_Slice_contract_def insertionSort_def
  using sorted_foldl_insert_left [where acc = "[]"]
  by (auto simp: mset_foldl_insert_left sorted_wrt_rev)

section \<open>Properties of the file operations and of the whole run\<close>

lemma not_under_posts: "\<not> under ''public'' (''posts/'' @ x)"
  by (simp add: under_def HasPrefix_def)

lemma not_under_template: "\<not> under ''public'' (''template/'' @ x)"
  by (simp add: under_def HasPrefix_def)

lemma not_under_static: "\<not> under ''public'' (''static/'' @ x)"
  by (simp add: under_def HasPrefix_def)

lemma under_public: "under ''public'' (''public/'' @ x)"
  by (simp add: under_def HasPrefix_def)

lemma map_of_outside: "\<not> under ''public'' p \<Longrightarrow> map_of (outside fs) p = map_of fs p"
  by (induction fs) (auto simp: outside_def)

lemma map_of_outside_under: "under ''public'' p \<Longrightarrow> map_of (outside fs) p = None"
  by (induction fs) (auto simp: outside_def)

lemma outside_update: "under ''public'' p \<Longrightarrow> outside (AList.update p v fs) = outside fs"
  by (induction fs) (auto simp: outside_def)

lemma outside_snoc: "under ''public'' p \<Longrightarrow> outside (fs @ [(p, n)]) = outside fs"
  by (simp add: outside_def)

lemma outside_idem: "outside (outside fs) = outside fs"
  by (simp add: outside_def)

lemma path_ancestors_public: "path_ancestors ''public'' = [''public'']"
  by code_simp

lemma parent_dir_simps:
  "parent_dir ''public/posts'' = ''public''"
  "parent_dir ''public/style.css'' = ''public''"
  "parent_dir ''public/index.html'' = ''public''"
  "parent_dir ''public/about.html'' = ''public''"
  by code_simp+


subsection \<open>Writes stay under the output directory\<close>

lemma outside_mkdir_missing:
  "mkdir_missing fs ds = Inr fs' \<Longrightarrow> \<forall>d \<in> set ds. under ''public'' d \<Longrightarrow> outside fs' = outside fs"
  by (induction ds arbitrary: fs) (auto simp: outside_snoc split: option.splits node.splits)

lemma outside_MkdirAll:
  "os_MkdirAll E fs ''public'' = Inr fs' \<Longrightarrow> outside fs' = outside fs"
  using outside_mkdir_missing [of fs "[''public'']" fs']
  by (auto simp: os_MkdirAll_def path_ancestors_public under_def split: if_splits)

lemma outside_Mkdir:
  "os_Mkdir E fs p = Inr fs' \<Longrightarrow> under ''public'' p \<Longrightarrow> outside fs' = outside fs"
  by (auto simp: os_Mkdir_def outside_snoc split: if_splits option.splits)

lemma Create_Inr:
  "os_Create E fs p = Inr r \<Longrightarrow> r = (AList.update p (File []) fs, p)"
  by (auto simp: os_Create_def split: if_splits option.splits node.splits)

lemma outside_Create:
  "os_Create E fs p = Inr (fs', f) \<Longrightarrow> under ''public'' p \<Longrightarrow> f = p \<and> outside fs' = outside fs"
  by (auto dest!: Create_Inr simp: outside_update)

lemma outside_Write:
  "file_Write E fs f b = (fs', e) \<Longrightarrow> under ''public'' f \<Longrightarrow> outside fs' = outside fs"
  by (auto simp: file_Write_def outside_update split: if_splits option.splits node.splits)

lemma outside_Copy:
  "io_Copy E fs dst src = (fs', e) \<Longrightarrow> under ''public'' dst \<Longrightarrow> outside fs' = outside fs"
  by (auto simp: io_Copy_def dest: outside_Write split: sum.splits)

lemma outside_copyFile:
  "copyFile E fs src dst = (fs', e) \<Longrightarrow> under ''public'' dst \<Longrightarrow> outside fs' = outside fs"
  by (auto simp: copyFile_def dest!: outside_Copy outside_Create
      split: sum.splits prod.splits option.splits)

lemma outside_tpl_Execute:
  "tpl_Execute E fs tpl f d = (fs', e) \<Longrightarrow> under ''public'' f \<Longrightarrow> outside fs' = outside fs"
  by (auto simp: tpl_Execute_def dest: outside_Write split: prod.splits option.splits)

lemma under_public_posts: "under ''public'' (''public/posts/'' @ x)"
  by (simp add: under_def HasPrefix_def)

lemma outside_posts_loop:
  "ParsepostsMDToHTML_loop E tpl fs posts = (fs', e) \<Longrightarrow> outside fs' = outside fs"
proof (induction posts arbitrary: fs)
  case Nil
  then show ?case by simp
next
  case (Cons post posts)
  define path where "path = ''public/posts/'' @ Slug (Metadata post) @ ''.html''"
  have u: "under ''public'' path"
    unfolding path_def by (rule under_public_posts)
  have step: "ParsepostsMDToHTML_loop E tpl fs (post # posts) =
     (case os_Create E fs path of
        Inl err \<Rightarrow> (fs, Some (Errorf ''HTML File creation error: '' err))
      | Inr (fs1, f) \<Rightarrow>
          (case tpl_Execute E fs1 tpl f (PostPage post) of
             (fs2, Some err) \<Rightarrow> (fs2, Some (Errorf ''Tempalate Execute error: '' err))
           | (fs2, None) \<Rightarrow> ParsepostsMDToHTML_loop E tpl fs2 posts))"
    unfolding path_def by simp
  show ?case
  proof (cases "os_Create E fs path")
    case (Inl err)
    with Cons.prems step show ?thesis by simp
  next
    case (Inr r)
    obtain fs1 f where r: "r = (fs1, f)" by (cases r)
    have f: "f = path" and o1: "outside fs1 = outside fs"
      using Inr r u outside_Create [of E fs path fs1 f] by auto
    obtain fs2 e2 where x: "tpl_Execute E fs1 tpl f (PostPage post) = (fs2, e2)"
      by (cases "tpl_Execute E fs1 tpl f (PostPage post)")
    have o2: "outside fs2 = outside fs1"
      using x f u by (auto dest: outside_tpl_Execute)
    show ?thesis
    proof (cases e2)
      case None
      with Cons.prems Inr r x step have "ParsepostsMDToHTML_loop E tpl fs2 posts = (fs', e)"
        by simp
      then show ?thesis using Cons.IH o1 o2 by simp
    next
      case (Some err)
      with Cons.prems Inr r x step have "fs' = fs2" by simp
      then show ?thesis using o1 o2 by simp
    qed
  qed
qed

lemma outside_ParsepostsMDToHTML:
  "ParsepostsMDToHTML E fs posts = (fs', r) \<Longrightarrow> outside fs' = outside fs"
  by (auto simp: ParsepostsMDToHTML_def dest: outside_posts_loop split: result.splits prod.splits)

lemma outside_ParseIndexTemplateToHTML:
  "ParseIndexTemplateToHTML E fs posts = (fs', r) \<Longrightarrow> outside fs' = outside fs"
  using under_public [of "''index.html''"]
  by (auto simp: ParseIndexTemplateToHTML_def Let_def
      dest!: outside_Create outside_tpl_Execute
      split: result.splits prod.splits sum.splits option.splits)

lemma outside_ParseAboutPage:
  "ParseAboutPage E fs = (fs', r) \<Longrightarrow> outside fs' = outside fs"
  using under_public [of "''about.html''"]
  by (auto simp: ParseAboutPage_def Let_def
      dest!: outside_Create outside_tpl_Execute
      split: result.splits prod.splits sum.splits option.splits)


subsection \<open>Reads outside the output directory\<close>

lemma map_of_outside_eq:
  "outside fs = outside fs2 \<Longrightarrow> \<not> under ''public'' p \<Longrightarrow> map_of fs p = map_of fs2 p"
  by (metis map_of_outside)

lemma os_Open_outside:
  "outside fs = outside fs2 \<Longrightarrow> \<not> under ''public'' p \<Longrightarrow> os_Open E fs p = os_Open E fs2 p"
  by (simp add: os_Open_def map_of_outside_eq [of fs fs2 p])

lemma io_ReadAll_outside:
  "outside fs = outside fs2 \<Longrightarrow> \<not> under ''public'' p \<Longrightarrow> io_ReadAll E fs p = io_ReadAll E fs2 p"
  by (simp add: io_ReadAll_def map_of_outside_eq [of fs fs2 p])

lemma os_Open_Inr: "os_Open E fs p = Inr f \<Longrightarrow> f = p"
  by (auto simp: os_Open_def split: if_splits option.splits)

lemma Read_outside:
  assumes "outside fs = outside fs2"
  shows "Read E fs slug = Read E fs2 slug"
proof -
  define path where "path = ''posts/'' @ slug @ ''.md''"
  have nu: "\<not> under ''public'' path"
    unfolding path_def by (rule not_under_posts)
  have "Read E fs slug =
      (case os_Open E fs path of Inl err \<Rightarrow> Inl err | Inr f \<Rightarrow> io_ReadAll E fs path)"
    unfolding Read_def path_def by (auto split: sum.splits dest: os_Open_Inr)
  also have "\<dots> =
      (case os_Open E fs2 path of Inl err \<Rightarrow> Inl err | Inr f \<Rightarrow> io_ReadAll E fs2 path)"
    by (simp only: os_Open_outside [OF assms nu] io_ReadAll_outside [OF assms nu])
  also have "\<dots> = Read E fs2 slug"
    unfolding Read_def path_def by (auto split: sum.splits dest: os_Open_Inr)
  finally show ?thesis .
qed

lemma getAllpostData_loop_outside:
  "outside fs = outside fs2 \<Longrightarrow>
   getAllpostData_loop E fs filenames posts = getAllpostData_loop E fs2 filenames posts"
proof (induction filenames arbitrary: posts)
  case Nil
  show ?case by simp
next
  case (Cons filename filenames)
  then show ?case
    by (simp add: Read_outside [of fs fs2] Let_def split: sum.splits prod.splits option.splits)
qed

lemma HasPrefix_iff: "HasPrefix s p \<longleftrightarrow> (\<exists>x. s = p @ x)"
proof
  assume "HasPrefix s p"
  then have "s = p @ drop (length p) s"
    unfolding HasPrefix_def by (metis append_take_drop_id)
  then show "\<exists>x. s = p @ x" ..
next
  assume "\<exists>x. s = p @ x"
  then show "HasPrefix s p"
    unfolding HasPrefix_def by auto
qed

lemma HasSuffix_iff: "HasSuffix s x \<longleftrightarrow> (\<exists>y. s = y @ x)"
proof
  assume "HasSuffix s x"
  then have "s = take (length s - length x) s @ x"
    unfolding HasSuffix_def by (metis append_take_drop_id)
  then show "\<exists>y. s = y @ x" ..
next
  assume "\<exists>y. s = y @ x"
  then show "HasSuffix s x"
    unfolding HasSuffix_def by auto
qed

lemma Glob_match_not_under: "Glob_match p \<Longrightarrow> \<not> under ''public'' p"
  unfolding Glob_match_def HasPrefix_iff using not_under_posts by blast

lemma filter_Glob_match_outside:
  "filter Glob_match (map fst (outside fs)) = filter Glob_match (map fst fs)"
  by (induction fs) (auto simp: outside_def dest: Glob_match_not_under)

lemma Glob_outside: "Glob (outside fs) = Glob fs"
proof -
  have "\<not> under ''public'' ''posts''"
    by (simp add: under_def HasPrefix_def)
  then show ?thesis
    by (simp add: Glob_def filter_Glob_match_outside map_of_outside)
qed

lemma Glob_outside_eq: "outside fs = outside fs2 \<Longrightarrow> Glob fs = Glob fs2"
  by (metis Glob_outside)

lemma getAllpostData_outside:
  "outside fs = outside fs2 \<Longrightarrow> getAllpostData E fs = getAllpostData E fs2"
  by (simp add: getAllpostData_def Glob_outside_eq [of fs fs2] getAllpostData_loop_outside [of fs fs2])

lemma ParseFiles_loop_outside:
  "outside fs = outside fs2 \<Longrightarrow> \<forall>f \<in> set filenames. \<not> under ''public'' f \<Longrightarrow>
   ParseFiles_loop E fs filenames parsed = ParseFiles_loop E fs2 filenames parsed"
proof (induction filenames arbitrary: parsed)
  case Nil
  show ?case by simp
next
  case (Cons filename filenames)
  have nu: "\<not> under ''public'' filename"
    using Cons.prems by simp
  have o: "os_Open E fs filename = os_Open E fs2 filename"
    using Cons.prems(1) nu by (rule os_Open_outside)
  have r: "io_ReadAll E fs filename = io_ReadAll E fs2 filename"
    using Cons.prems(1) nu by (rule io_ReadAll_outside)
  show ?case
  proof (cases "os_Open E fs2 filename")
    case (Inl err)
    with o show ?thesis by simp
  next
    case (Inr f)
    then have "f = filename" by (rule os_Open_Inr)
    with Inr o r Cons show ?thesis
      by (simp split: sum.splits option.splits)
  qed
qed

lemma ParseFiles_outside:
  "outside fs = outside fs2 \<Longrightarrow> \<forall>f \<in> set filenames. \<not> under ''public'' f \<Longrightarrow>
   ParseFiles E fs filenames = ParseFiles E fs2 filenames"
  by (simp add: ParseFiles_def ParseFiles_loop_outside [of fs fs2])


subsection \<open>The whole run\<close>

lemma outside_RemoveAll:
  "os_RemoveAll E fs ''public'' = Inr fs' \<Longrightarrow> fs' = outside fs"
  by (auto simp: os_RemoveAll_def outside_def split: if_splits)

lemma under_public_style: "under ''public'' ''public/style.css''"
  by (simp add: under_def HasPrefix_def)

lemma under_public_public_posts: "under ''public'' ''public/posts''"
  by (simp add: under_def HasPrefix_def)

lemma main_cases [consumes 1, case_names RemoveAll MkdirAll Mkdir Copy Load PostsPanic PostsError
    IndexPanic IndexError AboutPanic AboutError Done]:
  assumes "main E fs0 = (x, fs')"
  obtains
    (RemoveAll) err where
        "os_RemoveAll E fs0 ''public'' = Inl err"
        "x = Fatal err"
        "fs' = fs0"
  | (MkdirAll) fs1 err where
        "os_RemoveAll E fs0 ''public'' = Inr fs1"
        "os_MkdirAll E fs1 ''public'' = Inl err"
        "x = Fatal err"
        "fs' = fs1"
  | (Mkdir) fs1 fs2 err where
        "os_RemoveAll E fs0 ''public'' = Inr fs1"
        "os_MkdirAll E fs1 ''public'' = Inr fs2"
        "os_Mkdir E fs2 ''public/posts'' = Inl err"
        "x = Fatal err"
        "fs' = fs2"
  | (Copy) fs1 fs2 fs3 err where
        "os_RemoveAll E fs0 ''public'' = Inr fs1"
        "os_MkdirAll E fs1 ''public'' = Inr fs2"
        "os_Mkdir E fs2 ''public/posts'' = Inr fs3"
        "copyFile E fs3 ''static/style.css'' ''public/style.css'' = (fs', Some err)"
        "x = Fatal (Errorf ''Error copying styles: '' err)"
  | (Load) fs1 fs2 fs3 fs4 posts err where
        "os_RemoveAll E fs0 ''public'' = Inr fs1"
        "os_MkdirAll E fs1 ''public'' = Inr fs2"
        "os_Mkdir E fs2 ''public/posts'' = Inr fs3"
        "copyFile E fs3 ''static/style.css'' ''public/style.css'' = (fs4, None)"
        "getAllpostData E fs4 = (posts, Some err)"
        "x = Fatal err"
        "fs' = fs4"
  | (PostsPanic) fs1 fs2 fs3 fs4 posts err where
        "os_RemoveAll E fs0 ''public'' = Inr fs1"
        "os_MkdirAll E fs1 ''public'' = Inr fs2"
        "os_Mkdir E fs2 ''public/posts'' = Inr fs3"
        "copyFile E fs3 ''static/style.css'' ''public/style.css'' = (fs4, None)"
        "getAllpostData E fs4 = (posts, None)"
        "ParsepostsMDToHTML E fs4 (sort_Slice E date_After posts) = (fs', Panics err)"
        "x = Panic err"
  | (PostsError) fs1 fs2 fs3 fs4 posts err where
        "os_RemoveAll E fs0 ''public'' = Inr fs1"
        "os_MkdirAll E fs1 ''public'' = Inr fs2"
        "os_Mkdir E fs2 ''public/posts'' = Inr fs3"
        "copyFile E fs3 ''static/style.css'' ''public/style.css'' = (fs4, None)"
        "getAllpostData E fs4 = (posts, None)"
        "ParsepostsMDToHTML E fs4 (sort_Slice E date_After posts) = (fs', Ret (Some err))"
        "x = Fatal err"
  | (IndexPanic) fs1 fs2 fs3 fs4 posts fs5 err where
        "os_RemoveAll E fs0 ''public'' = Inr fs1"
        "os_MkdirAll E fs1 ''public'' = Inr fs2"
        "os_Mkdir E fs2 ''public/posts'' = Inr fs3"
        "copyFile E fs3 ''static/style.css'' ''public/style.css'' = (fs4, None)"
        "getAllpostData E fs4 = (posts, None)"
        "ParsepostsMDToHTML E fs4 (sort_Slice E date_After posts) = (fs5, Ret None)"
        "ParseIndexTemplateToHTML E fs5 (sort_Slice E date_After posts) = (fs', Panics err)"
        "x = Panic err"
  | (IndexError) fs1 fs2 fs3 fs4 posts fs5 err where
        "os_RemoveAll E fs0 ''public'' = Inr fs1"
        "os_MkdirAll E fs1 ''public'' = Inr fs2"
        "os_Mkdir E fs2 ''public/posts'' = Inr fs3"
        "copyFile E fs3 ''static/style.css'' ''public/style.css'' = (fs4, None)"
        "getAllpostData E fs4 = (posts, None)"
        "ParsepostsMDToHTML E fs4 (sort_Slice E date_After posts) = (fs5, Ret None)"
        "ParseIndexTemplateToHTML E fs5 (sort_Slice E date_After posts) = (fs', Ret (Some err))"
        "x = Fatal err"
  | (AboutPanic) fs1 fs2 fs3 fs4 posts fs5 fs6 err where
        "os_RemoveAll E fs0 ''public'' = Inr fs1"
        "os_MkdirAll E fs1 ''public'' = Inr fs2"
        "os_Mkdir E fs2 ''public/posts'' = Inr fs3"
        "copyFile E fs3 ''static/style.css'' ''public/style.css'' = (fs4, None)"
        "getAllpostData E fs4 = (posts, None)"
        "ParsepostsMDToHTML E fs4 (sort_Slice E date_After posts) = (fs5, Ret None)"
        "ParseIndexTemplateToHTML E fs5 (sort_Slice E date_After posts) = (fs6, Ret None)"
        "ParseAboutPage E fs6 = (fs', Panics err)"
        "x = Panic err"
  | (AboutError) fs1 fs2 fs3 fs4 posts fs5 fs6 err where
        "os_RemoveAll E fs0 ''public'' = Inr fs1"
        "os_MkdirAll E fs1 ''public'' = Inr fs2"
        "os_Mkdir E fs2 ''public/posts'' = Inr fs3"
        "copyFile E fs3 ''static/style.css'' ''public/style.css'' = (fs4, None)"
        "getAllpostData E fs4 = (posts, None)"
        "ParsepostsMDToHTML E fs4 (sort_Slice E date_After posts) = (fs5, Ret None)"
        "ParseIndexTemplateToHTML E fs5 (sort_Slice E date_After posts) = (fs6, Ret None)"
        "ParseAboutPage E fs6 = (fs', Ret (Some err))"
        "x = Fatal err"
  | (Done) fs1 fs2 fs3 fs4 posts fs5 fs6 where
        "os_RemoveAll E fs0 ''public'' = Inr fs1"
        "os_MkdirAll E fs1 ''public'' = Inr fs2"
        "os_Mkdir E fs2 ''public/posts'' = Inr fs3"
        "copyFile E fs3 ''static/style.css'' ''public/style.css'' = (fs4, None)"
        "getAllpostData E fs4 = (posts, None)"
        "ParsepostsMDToHTML E fs4 (sort_Slice E date_After posts) = (fs5, Ret None)"
        "ParseIndexTemplateToHTML E fs5 (sort_Slice E date_After posts) = (fs6, Ret None)"
        "ParseAboutPage E fs6 = (fs', Ret None)"
        "x = Exit0"
  proof (cases "os_RemoveAll E fs0 ''public''")
    case r1: (Inl err)
    have "x = Fatal err" "fs' = fs0"
      using assms r1 by (simp_all add: main_def Let_def)
    then show ?thesis
      by (rule RemoveAll [OF r1])
  next
    case r1: (Inr fs1)
    show ?thesis
    proof (cases "os_MkdirAll E fs1 ''public''")
      case r2: (Inl err)
      have "x = Fatal err" "fs' = fs1"
        using assms r1 r2 by (simp_all add: main_def Let_def)
      then show ?thesis
        by (rule MkdirAll [OF r1 r2])
    next
      case r2: (Inr fs2)
      show ?thesis
      proof (cases "os_Mkdir E fs2 ''public/posts''")
        case r3: (Inl err)
        have "x = Fatal err" "fs' = fs2"
          using assms r1 r2 r3 by (simp_all add: main_def Let_def)
        then show ?thesis
          by (rule Mkdir [OF r1 r2 r3])
      next
        case r3: (Inr fs3)
        obtain fs4 e4 where r4: "copyFile E fs3 ''static/style.css'' ''public/style.css'' = (fs4, e4)"
          by (cases "copyFile E fs3 ''static/style.css'' ''public/style.css''")
        show ?thesis
        proof (cases e4)
          case (Some err)
          have c: "copyFile E fs3 ''static/style.css'' ''public/style.css'' = (fs4, Some err)"
            using r4 Some by simp
          have "x = Fatal (Errorf ''Error copying styles: '' err)" "fs' = fs4"
            using assms r1 r2 r3 c by (simp_all add: main_def Let_def)
          then show ?thesis
            using c by (auto intro: Copy [OF r1 r2 r3])
        next
          case None
          have c: "copyFile E fs3 ''static/style.css'' ''public/style.css'' = (fs4, None)"
            using r4 None by simp
          obtain posts e5 where r5: "getAllpostData E fs4 = (posts, e5)"
            by (cases "getAllpostData E fs4")
          show ?thesis
          proof (cases e5)
            case (Some err)
            have g: "getAllpostData E fs4 = (posts, Some err)"
              using r5 Some by simp
            have "x = Fatal err" "fs' = fs4"
              using assms r1 r2 r3 c g by (simp_all add: main_def Let_def)
            then show ?thesis
              by (rule Load [OF r1 r2 r3 c g])
          next
            case None
            have g: "getAllpostData E fs4 = (posts, None)"
              using r5 None by simp
            obtain fs5 e6 where r6: "ParsepostsMDToHTML E fs4 (sort_Slice E date_After posts) = (fs5, e6)"
              by (cases "ParsepostsMDToHTML E fs4 (sort_Slice E date_After posts)")
            show ?thesis
            proof (cases e6)
              case (Panics err)
              have p: "ParsepostsMDToHTML E fs4 (sort_Slice E date_After posts) = (fs5, Panics err)"
                using r6 Panics by simp
              have "x = Panic err" "fs' = fs5"
                using assms r1 r2 r3 c g p by (simp_all add: main_def Let_def)
              then show ?thesis
                using p by (auto intro: PostsPanic [OF r1 r2 r3 c g])
            next
              case (Ret eo)
              show ?thesis
              proof (cases eo)
                case (Some err)
                have p: "ParsepostsMDToHTML E fs4 (sort_Slice E date_After posts) = (fs5, Ret (Some err))"
                  using r6 Ret Some by simp
                have "x = Fatal err" "fs' = fs5"
                  using assms r1 r2 r3 c g p by (simp_all add: main_def Let_def)
                then show ?thesis
                  using p by (auto intro: PostsError [OF r1 r2 r3 c g])
              next
                case None
                have p6: "ParsepostsMDToHTML E fs4 (sort_Slice E date_After posts) = (fs5, Ret None)"
                  using r6 Ret None by simp
                obtain fs6 e7 where r7: "ParseIndexTemplateToHTML E fs5 (sort_Slice E date_After posts) = (fs6, e7)"
                  by (cases "ParseIndexTemplateToHTML E fs5 (sort_Slice E date_After posts)")
                show ?thesis
                proof (cases e7)
                  case (Panics err)
                  have p: "ParseIndexTemplateToHTML E fs5 (sort_Slice E date_After posts) = (fs6, Panics err)"
                    using r7 Panics by simp
                  have "x = Panic err" "fs' = fs6"
                    using assms r1 r2 r3 c g p6 p by (simp_all add: main_def Let_def)
                  then show ?thesis
                    using p by (auto intro: IndexPanic [OF r1 r2 r3 c g p6])
                next
                  case (Ret eo)
                  show ?thesis
                  proof (cases eo)
                    case (Some err)
                    have p: "ParseIndexTemplateToHTML E fs5 (sort_Slice E date_After posts) = (fs6, Ret (Some err))"
                      using r7 Ret Some by simp
                    have "x = Fatal err" "fs' = fs6"
                      using assms r1 r2 r3 c g p6 p by (simp_all add: main_def Let_def)
                    then show ?thesis
                      using p by (auto intro: IndexError [OF r1 r2 r3 c g p6])
                  next
                    case None
                    have p7: "ParseIndexTemplateToHTML E fs5 (sort_Slice E date_After posts) = (fs6, Ret None)"
                      using r7 Ret None by simp
                    obtain fs7 e8 where r8: "ParseAboutPage E fs6 = (fs7, e8)"
                      by (cases "ParseAboutPage E fs6")
                    show ?thesis
                    proof (cases e8)
                      case (Panics err)
                      have p: "ParseAboutPage E fs6 = (fs7, Panics err)"
                        using r8 Panics by simp
                      have "x = Panic err" "fs' = fs7"
                        using assms r1 r2 r3 c g p6 p7 p by (simp_all add: main_def Let_def)
                      then show ?thesis
                        using p by (auto intro: AboutPanic [OF r1 r2 r3 c g p6 p7])
                    next
                      case (Ret eo)
                      show ?thesis
                      proof (cases eo)
                        case (Some err)
                        have p: "ParseAboutPage E fs6 = (fs7, Ret (Some err))"
                          using r8 Ret Some by simp
                        have "x = Fatal err" "fs' = fs7"
                          using assms r1 r2 r3 c g p6 p7 p by (simp_all add: main_def Let_def)
                        then show ?thesis
                          using p by (auto intro: AboutError [OF r1 r2 r3 c g p6 p7])
                      next
                        case None
                        have p8: "ParseAboutPage E fs6 = (fs7, Ret None)"
                          using r8 Ret None by simp
                        have "x = Exit0" "fs' = fs7"
                          using assms r1 r2 r3 c g p6 p7 p8 by (simp_all add: main_def Let_def)
                        then show ?thesis
                          using p8 by (auto intro: Done [OF r1 r2 r3 c g p6 p7])
                      qed
                    qed
                  qed
                qed
              qed
            qed
          qed
        qed
      qed
    qed
  qed


lemma outside_main: "outside (snd (main E fs)) = outside fs"
proof -
  obtain x fs' where m: "main E fs = (x, fs')"
    by (cases "main E fs")
  note u = under_public_style under_public_public_posts
  from m have "outside fs' = outside fs"
  proof (cases rule: main_cases)
    case (RemoveAll err)
    then show ?thesis by simp
  next
    case (MkdirAll fs1 err)
    then show ?thesis
      by (auto dest!: outside_RemoveAll simp: outside_idem)
  next
    case (Mkdir fs1 fs2 err)
    then show ?thesis
      by (auto dest!: outside_RemoveAll outside_MkdirAll simp: outside_idem)
  next
    case (Copy fs1 fs2 fs3 err)
    then show ?thesis
      using outside_copyFile [OF Copy(4) u(1)] outside_Mkdir [OF Copy(3) u(2)]
      by (auto dest!: outside_RemoveAll outside_MkdirAll simp: outside_idem)
  next
    case (Load fs1 fs2 fs3 fs4 posts err)
    then show ?thesis
      using outside_copyFile [OF Load(4) u(1)] outside_Mkdir [OF Load(3) u(2)]
      by (auto dest!: outside_RemoveAll outside_MkdirAll simp: outside_idem)
  next
    case (PostsPanic fs1 fs2 fs3 fs4 posts err)
    then show ?thesis
      using outside_copyFile [OF PostsPanic(4) u(1)] outside_Mkdir [OF PostsPanic(3) u(2)]
      by (auto dest!: outside_RemoveAll outside_MkdirAll outside_ParsepostsMDToHTML
          simp: outside_idem)
  next
    case (PostsError fs1 fs2 fs3 fs4 posts err)
    then show ?thesis
      using outside_copyFile [OF PostsError(4) u(1)] outside_Mkdir [OF PostsError(3) u(2)]
      by (auto dest!: outside_RemoveAll outside_MkdirAll outside_ParsepostsMDToHTML
          simp: outside_idem)
  next
    case (IndexPanic fs1 fs2 fs3 fs4 posts fs5 err)
    then show ?thesis
      using outside_copyFile [OF IndexPanic(4) u(1)] outside_Mkdir [OF IndexPanic(3) u(2)]
      by (auto dest!: outside_RemoveAll outside_MkdirAll outside_ParsepostsMDToHTML
          outside_ParseIndexTemplateToHTML simp: outside_idem)
  next
    case (IndexError fs1 fs2 fs3 fs4 posts fs5 err)
    then show ?thesis
      using outside_copyFile [OF IndexError(4) u(1)] outside_Mkdir [OF IndexError(3) u(2)]
      by (auto dest!: outside_RemoveAll outside_MkdirAll outside_ParsepostsMDToHTML
          outside_ParseIndexTemplateToHTML simp: outside_idem)
  next
    case (AboutPanic fs1 fs2 fs3 fs4 posts fs5 fs6 err)
    then show ?thesis
      using outside_copyFile [OF AboutPanic(4) u(1)] outside_Mkdir [OF AboutPanic(3) u(2)]
      by (auto dest!: outside_RemoveAll outside_MkdirAll outside_ParsepostsMDToHTML
          outside_ParseIndexTemplateToHTML outside_ParseAboutPage simp: outside_idem)
  next
    case (AboutError fs1 fs2 fs3 fs4 posts fs5 fs6 err)
    then show ?thesis
      using outside_copyFile [OF AboutError(4) u(1)] outside_Mkdir [OF AboutError(3) u(2)]
      by (auto dest!: outside_RemoveAll outside_MkdirAll outside_ParsepostsMDToHTML
          outside_ParseIndexTemplateToHTML outside_ParseAboutPage simp: outside_idem)
  next
    case (Done fs1 fs2 fs3 fs4 posts fs5 fs6)
    then show ?thesis
      using outside_copyFile [OF Done(4) u(1)] outside_Mkdir [OF Done(3) u(2)]
      by (auto dest!: outside_RemoveAll outside_MkdirAll outside_ParsepostsMDToHTML
          outside_ParseIndexTemplateToHTML outside_ParseAboutPage simp: outside_idem)
  qed
  with m show ?thesis by simp
qed

lemma main_outside:
  assumes "outside fs = outside fs2" and "\<not> fault E (RemoveAllOp ''public'')"
  shows "main E fs = main E fs2"
proof -
  have a: "os_RemoveAll E fs ''public'' = Inr (outside fs2)"
    and b: "os_RemoveAll E fs2 ''public'' = Inr (outside fs2)"
    using assms by (simp_all add: os_RemoveAll_def outside_def)
  show ?thesis
    by (simp only: main_def a b sum.case)
qed

text \<open>
  C5. Running the build a second time on the tree the first run left, in the same world
  (the same libraries, each a function of its input, and the same outside failures),
  ends the same way and leaves the same tree, byte for byte: every post page, the index
  page, the about page and the copied stylesheet. The first run may start from any tree,
  with or without an older output directory.
\<close>

theorem build_twice_same: "main E (snd (main E fs)) = main E fs"
proof (cases "fault E (RemoveAllOp ''public'')")
  case True
  then have "main E fs = (Fatal (PathError ''unlinkat'' ''public'' EIO), fs)"
    by (simp add: main_def os_RemoveAll_def)
  then show ?thesis by simp
next
  case False
  show ?thesis
    using outside_main False by (rule main_outside)
qed

section \<open>Post records\<close>

lemma getAllpostData_loop_length:
  "length posts \<le> length (fst (getAllpostData_loop E fs filenames posts))"
proof (induction filenames arbitrary: posts)
  case Nil
  show ?case by simp
next
  case (Cons filename filenames)
  have "length posts \<le> length (fst (getAllpostData_loop E fs filenames (posts @ [p])))" for p
    using Cons.IH [of "posts @ [p]"] by simp
  then show ?case
    by (simp add: Let_def split: sum.splits prod.splits option.splits)
qed

lemma getAllpostData_loop_slugs:
  "map (\<lambda>p. Slug (Metadata p)) (fst (getAllpostData_loop E fs filenames posts)) =
   map (\<lambda>p. Slug (Metadata p)) posts @
   map slug_of (take (length (fst (getAllpostData_loop E fs filenames posts)) - length posts) filenames)"
proof (induction filenames arbitrary: posts)
  case Nil
  show ?case by simp
next
  case (Cons filename filenames)
  have step: "take (length (fst (getAllpostData_loop E fs filenames (posts @ [p]))) - length posts)
        (filename # filenames) =
      filename # take (length (fst (getAllpostData_loop E fs filenames (posts @ [p]))) -
        length (posts @ [p])) filenames" for p
  proof -
    have "Suc (length posts) \<le> length (fst (getAllpostData_loop E fs filenames (posts @ [p])))"
      using getAllpostData_loop_length [of "posts @ [p]" E fs filenames] by simp
    then show ?thesis
      by (simp add: Suc_diff_le take_Cons')
  qed
  show ?case
    by (simp add: Let_def Cons.IH step split: sum.splits prod.splits option.splits)
      (simp add: slug_of_def)
qed

lemma getAllpostData_loop_complete:
  "snd (getAllpostData_loop E fs filenames posts) = None \<Longrightarrow>
   length (fst (getAllpostData_loop E fs filenames posts)) = length posts + length filenames"
proof (induction filenames arbitrary: posts)
  case Nil
  show ?case by simp
next
  case (Cons filename filenames)
  then show ?case
    by (auto simp add: Let_def split: sum.splits prod.splits option.splits)
qed

text \<open>
  C3. The slug stored in each post record is the one derived from the file name: the
  records come out in discovery order, and the slug of the i-th record is the name of the
  i-th discovered file without the directory prefix and the extension, whatever the
  front-matter parser put into the slug field. When no post fails there is one record
  for every discovered file.
\<close>

theorem slug_from_filename:
  "map (\<lambda>p. Slug (Metadata p)) (fst (getAllpostData E fs)) =
     map slug_of (take (length (fst (getAllpostData E fs))) (Glob fs)) \<and>
   (snd (getAllpostData E fs) = None \<longrightarrow>
     map (\<lambda>p. Slug (Metadata p)) (fst (getAllpostData E fs)) = map slug_of (Glob fs))"
  using getAllpostData_loop_slugs [of E fs "Glob fs" "[]"]
    getAllpostData_loop_complete [of E fs "Glob fs" "[]"]
  by (simp add: getAllpostData_def)

text \<open>
  In the example world the parser sets the slug field to \<open>front-matter-slug\<close>; the
  record of \<^verbatim>\<open>posts/hello.md\<close> has the slug \<open>hello\<close>.
\<close>

theorem slug_from_filename_witness:
  "snd (getAllpostData example_env example_fs) = None \<and>
   map (\<lambda>p. Slug (Metadata p)) (fst (getAllpostData example_env example_fs)) = [''hello''] \<and>
   map slug_of (Glob example_fs) = [''hello''] \<and>
   map_sum id (\<lambda>r. Slug (fst r)) (frontmatter_Parse example_env ''Hello|# Hi'') =
     Inr ''front-matter-slug''"
proof -
  have a: "snd (getAllpostData example_env example_fs) = None"
    by code_simp
  have b: "map slug_of (Glob example_fs) = [''hello'']"
    by code_simp
  have c: "map_sum id (\<lambda>r. Slug (fst r)) (frontmatter_Parse example_env ''Hello|# Hi'') =
     Inr ''front-matter-slug''"
    by code_simp
  have "map (\<lambda>p. Slug (Metadata p)) (fst (getAllpostData example_env example_fs)) =
      map slug_of (Glob example_fs)"
    using slug_from_filename [of example_env example_fs] a by blast
  with a b c show ?thesis
    by simp
qed

section \<open>The front-matter splitter\<close>



section \<open>Loading the templates\<close>

lemma ParseFiles_loop_fails:
  "f \<in> set filenames \<Longrightarrow> template_missing_or_invalid E fs f \<Longrightarrow>
   isl (ParseFiles_loop E fs filenames parsed)"
proof (induction filenames arbitrary: parsed)
  case Nil
  then show ?case by simp
next
  case (Cons filename filenames)
  show ?case
  proof (cases "f = filename")
    case True
    with Cons.prems(2) show ?thesis
      by (auto simp: template_missing_or_invalid_def os_Open_def io_ReadAll_def
          split: option.splits node.splits sum.splits if_splits)
  next
    case False
    with Cons.prems have "f \<in> set filenames" by simp
    then have "isl (ParseFiles_loop E fs filenames parsed')" for parsed'
      using Cons.IH Cons.prems(2) by blast
    then show ?thesis
      by (simp split: sum.splits option.splits)
  qed
qed

lemma ParseFiles_fails:
  "f \<in> set filenames \<Longrightarrow> template_missing_or_invalid E fs f \<Longrightarrow>
   \<exists>err. ParseFiles E fs filenames = Inl err"
  using ParseFiles_loop_fails [of f filenames E fs "[]"]
  by (cases "ParseFiles_loop E fs filenames []") (auto simp: ParseFiles_def)

lemma setup_outside:
  assumes "os_RemoveAll E fs0 ''public'' = Inr fs1"
    and "os_MkdirAll E fs1 ''public'' = Inr fs2"
    and "os_Mkdir E fs2 ''public/posts'' = Inr fs3"
    and "copyFile E fs3 ''static/style.css'' ''public/style.css'' = (fs4, e)"
  shows "outside fs4 = outside fs0"
  using outside_RemoveAll [OF assms(1)] outside_MkdirAll [OF assms(2)]
    outside_Mkdir [OF assms(3) under_public_public_posts]
    outside_copyFile [OF assms(4) under_public_style]
  by (simp add: outside_idem)

lemma template_missing_or_invalid_outside:
  "outside fs = outside fs2 \<Longrightarrow> \<not> under ''public'' f \<Longrightarrow>
   template_missing_or_invalid E fs f = template_missing_or_invalid E fs2 f"
  by (simp add: template_missing_or_invalid_def map_of_outside_eq [of fs fs2 f])

lemma ParsepostsMDToHTML_panics:
  assumes "f \<in> {''template/post.html'', ''template/header.html'', ''template/footer.html''}"
    and "template_missing_or_invalid E fs f"
  shows "\<exists>err. ParsepostsMDToHTML E fs postsData = (fs, Panics err)"
proof -
  have "f \<in> set [''template/post.html'', ''template/header.html'', ''template/footer.html'']"
    using assms(1) by simp
  from ParseFiles_fails [OF this assms(2)] show ?thesis
    unfolding ParsepostsMDToHTML_def Must_def by auto
qed

lemma ParseIndexTemplateToHTML_panics:
  assumes "f \<in> {''template/index.html'', ''template/header.html'', ''template/footer.html''}"
    and "template_missing_or_invalid E fs f"
  shows "\<exists>err. ParseIndexTemplateToHTML E fs postsData = (fs, Panics err)"
proof -
  have "f \<in> set [''template/index.html'', ''template/header.html'', ''template/footer.html'']"
    using assms(1) by simp
  from ParseFiles_fails [OF this assms(2)] show ?thesis
    unfolding ParseIndexTemplateToHTML_def Must_def by auto
qed

lemma ParseAboutPage_panics:
  assumes "f \<in> {''template/about.html'', ''template/header.html'', ''template/footer.html''}"
    and "template_missing_or_invalid E fs f"
  shows "\<exists>err. ParseAboutPage E fs = (fs, Panics err)"
proof -
  have "f \<in> set [''template/about.html'', ''template/header.html'', ''template/footer.html'']"
    using assms(1) by simp
  from ParseFiles_fails [OF this assms(2)] show ?thesis
    unfolding ParseAboutPage_def Must_def by auto
qed

text \<open>
  C9, as amended. For every render call site (post, index, about): if one of its three
  template files (its layout, the header, the footer) is missing or does not parse, the
  render function does not return an error. \<^verbatim>\<open>template.Must\<close> panics before the
  function creates its output file, so the function leaves the tree as it found it; and
  when the run reaches that call site (the set-up, the loading of the posts and the
  earlier call sites have succeeded) the process ends with this panic, not through
  \<^verbatim>\<open>log.Fatal\<close>, and the tree is the one the earlier call sites left.
\<close>

theorem template_load_failure_panics:
  assumes "template_missing_or_invalid E fs f"
  shows
    "(f \<in> {''template/post.html'', ''template/header.html'', ''template/footer.html''} \<longrightarrow>
        (\<exists>err. ParsepostsMDToHTML E fs postsData = (fs, Panics err))) \<and>
     (f \<in> {''template/index.html'', ''template/header.html'', ''template/footer.html''} \<longrightarrow>
        (\<exists>err. ParseIndexTemplateToHTML E fs postsData = (fs, Panics err))) \<and>
     (f \<in> {''template/about.html'', ''template/header.html'', ''template/footer.html''} \<longrightarrow>
        (\<exists>err. ParseAboutPage E fs = (fs, Panics err))) \<and>
     (f \<in> {''template/post.html'', ''template/header.html'', ''template/footer.html''} \<and>
      os_RemoveAll E fs ''public'' = Inr fs1 \<and>
      os_MkdirAll E fs1 ''public'' = Inr fs2 \<and>
      os_Mkdir E fs2 ''public/posts'' = Inr fs3 \<and>
      copyFile E fs3 ''static/style.css'' ''public/style.css'' = (fs4, None) \<and>
      getAllpostData E fs4 = (posts, None) \<longrightarrow>
        (\<exists>err. main E fs = (Panic err, fs4))) \<and>
     (f \<in> {''template/index.html'', ''template/header.html'', ''template/footer.html''} \<and>
      os_RemoveAll E fs ''public'' = Inr fs1 \<and>
      os_MkdirAll E fs1 ''public'' = Inr fs2 \<and>
      os_Mkdir E fs2 ''public/posts'' = Inr fs3 \<and>
      copyFile E fs3 ''static/style.css'' ''public/style.css'' = (fs4, None) \<and>
      getAllpostData E fs4 = (posts, None) \<and>
      ParsepostsMDToHTML E fs4 (sort_Slice E date_After posts) = (fs5, Ret None) \<longrightarrow>
        (\<exists>err. main E fs = (Panic err, fs5))) \<and>
     (f \<in> {''template/about.html'', ''template/header.html'', ''template/footer.html''} \<and>
      os_RemoveAll E fs ''public'' = Inr fs1 \<and>
      os_MkdirAll E fs1 ''public'' = Inr fs2 \<and>
      os_Mkdir E fs2 ''public/posts'' = Inr fs3 \<and>
      copyFile E fs3 ''static/style.css'' ''public/style.css'' = (fs4, None) \<and>
      getAllpostData E fs4 = (posts, None) \<and>
      ParsepostsMDToHTML E fs4 (sort_Slice E date_After posts) = (fs5, Ret None) \<and>
      ParseIndexTemplateToHTML E fs5 (sort_Slice E date_After posts) = (fs6, Ret None) \<longrightarrow>
        (\<exists>err. main E fs = (Panic err, fs6)))"
proof -
  let ?P = "{''template/post.html'', ''template/header.html'', ''template/footer.html''}"
  let ?I = "{''template/index.html'', ''template/header.html'', ''template/footer.html''}"
  let ?A = "{''template/about.html'', ''template/header.html'', ''template/footer.html''}"
  let ?ps = "sort_Slice E date_After posts"
  have nu: "\<not> under ''public'' f" if "f \<in> ?P \<union> ?I \<union> ?A"
    using that not_under_template by auto
  have bad: "template_missing_or_invalid E fs' f"
    if "outside fs' = outside fs" and "f \<in> ?P \<union> ?I \<union> ?A" for fs'
    using that assms nu by (simp add: template_missing_or_invalid_outside [of fs' fs])
  have 1: "f \<in> ?P \<longrightarrow> (\<exists>err. ParsepostsMDToHTML E fs postsData = (fs, Panics err))"
    using ParsepostsMDToHTML_panics [OF _ assms] by blast
  have 2: "f \<in> ?I \<longrightarrow> (\<exists>err. ParseIndexTemplateToHTML E fs postsData = (fs, Panics err))"
    using ParseIndexTemplateToHTML_panics [OF _ assms] by blast
  have 3: "f \<in> ?A \<longrightarrow> (\<exists>err. ParseAboutPage E fs = (fs, Panics err))"
    using ParseAboutPage_panics [OF _ assms] by blast
  have 4: "f \<in> ?P \<and>
      os_RemoveAll E fs ''public'' = Inr fs1 \<and>
      os_MkdirAll E fs1 ''public'' = Inr fs2 \<and>
      os_Mkdir E fs2 ''public/posts'' = Inr fs3 \<and>
      copyFile E fs3 ''static/style.css'' ''public/style.css'' = (fs4, None) \<and>
      getAllpostData E fs4 = (posts, None) \<longrightarrow>
        (\<exists>err. main E fs = (Panic err, fs4))"
  proof (intro impI, elim conjE)
    assume f: "f \<in> ?P"
      and s: "os_RemoveAll E fs ''public'' = Inr fs1" "os_MkdirAll E fs1 ''public'' = Inr fs2"
        "os_Mkdir E fs2 ''public/posts'' = Inr fs3"
        "copyFile E fs3 ''static/style.css'' ''public/style.css'' = (fs4, None)"
      and g: "getAllpostData E fs4 = (posts, None)"
    have "outside fs4 = outside fs"
      using s by (rule setup_outside)
    then have "template_missing_or_invalid E fs4 f"
      using f by (intro bad) auto
    from ParsepostsMDToHTML_panics [OF f this]
    obtain err where "ParsepostsMDToHTML E fs4 ?ps = (fs4, Panics err)"
      by blast
    with s g have "main E fs = (Panic err, fs4)"
      by (simp add: main_def)
    then show "\<exists>err. main E fs = (Panic err, fs4)" ..
  qed
  have 5: "f \<in> ?I \<and>
      os_RemoveAll E fs ''public'' = Inr fs1 \<and>
      os_MkdirAll E fs1 ''public'' = Inr fs2 \<and>
      os_Mkdir E fs2 ''public/posts'' = Inr fs3 \<and>
      copyFile E fs3 ''static/style.css'' ''public/style.css'' = (fs4, None) \<and>
      getAllpostData E fs4 = (posts, None) \<and>
      ParsepostsMDToHTML E fs4 ?ps = (fs5, Ret None) \<longrightarrow>
        (\<exists>err. main E fs = (Panic err, fs5))"
  proof (intro impI, elim conjE)
    assume f: "f \<in> ?I"
      and s: "os_RemoveAll E fs ''public'' = Inr fs1" "os_MkdirAll E fs1 ''public'' = Inr fs2"
        "os_Mkdir E fs2 ''public/posts'' = Inr fs3"
        "copyFile E fs3 ''static/style.css'' ''public/style.css'' = (fs4, None)"
      and g: "getAllpostData E fs4 = (posts, None)"
      and p: "ParsepostsMDToHTML E fs4 ?ps = (fs5, Ret None)"
    have "outside fs5 = outside fs"
      using setup_outside [OF s] outside_ParsepostsMDToHTML [OF p] by simp
    then have "template_missing_or_invalid E fs5 f"
      using f by (intro bad) auto
    from ParseIndexTemplateToHTML_panics [OF f this]
    obtain err where "ParseIndexTemplateToHTML E fs5 ?ps = (fs5, Panics err)"
      by blast
    with s g p have "main E fs = (Panic err, fs5)"
      by (simp add: main_def)
    then show "\<exists>err. main E fs = (Panic err, fs5)" ..
  qed
  have 6: "f \<in> ?A \<and>
      os_RemoveAll E fs ''public'' = Inr fs1 \<and>
      os_MkdirAll E fs1 ''public'' = Inr fs2 \<and>
      os_Mkdir E fs2 ''public/posts'' = Inr fs3 \<and>
      copyFile E fs3 ''static/style.css'' ''public/style.css'' = (fs4, None) \<and>
      getAllpostData E fs4 = (posts, None) \<and>
      ParsepostsMDToHTML E fs4 ?ps = (fs5, Ret None) \<and>
      ParseIndexTemplateToHTML E fs5 ?ps = (fs6, Ret None) \<longrightarrow>
        (\<exists>err. main E fs = (Panic err, fs6))"
  proof (intro impI, elim conjE)
    assume f: "f \<in> ?A"
      and s: "os_RemoveAll E fs ''public'' = Inr fs1" "os_MkdirAll E fs1 ''public'' = Inr fs2"
        "os_Mkdir E fs2 ''public/posts'' = Inr fs3"
        "copyFile E fs3 ''static/style.css'' ''public/style.css'' = (fs4, None)"
      and g: "getAllpostData E fs4 = (posts, None)"
      and p: "ParsepostsMDToHTML E fs4 ?ps = (fs5, Ret None)"
      and i: "ParseIndexTemplateToHTML E fs5 ?ps = (fs6, Ret None)"
    have "outside fs6 = outside fs"
      using setup_outside [OF s] outside_ParsepostsMDToHTML [OF p]
        outside_ParseIndexTemplateToHTML [OF i] by simp
    then have "template_missing_or_invalid E fs6 f"
      using f by (intro bad) auto
    from ParseAboutPage_panics [OF f this]
    obtain err where "ParseAboutPage E fs6 = (fs6, Panics err)"
      by blast
    with s g p i have "main E fs = (Panic err, fs6)"
      by (simp add: main_def)
    then show "\<exists>err. main E fs = (Panic err, fs6)" ..
  qed
  from 1 2 3 4 5 6 show ?thesis
    by (intro conjI)
qed

text \<open>
  The claim as stated, that the render operation fails with an error result, is false:
  without the footer template each of the three functions panics and so does the run;
  without the index template, or without the about template, the run panics at that
  call site, after the pages of the earlier call sites have been written.
\<close>

theorem template_load_failure_counterexample:
  "template_missing_or_invalid example_env example_fs_no_footer ''template/footer.html'' \<and>
   snd (ParseAboutPage example_env example_fs_no_footer) =
     Panics (PathError ''open'' ''template/footer.html'' ENOENT) \<and>
   snd (ParsepostsMDToHTML example_env example_fs_no_footer []) =
     Panics (PathError ''open'' ''template/footer.html'' ENOENT) \<and>
   snd (ParseIndexTemplateToHTML example_env example_fs_no_footer []) =
     Panics (PathError ''open'' ''template/footer.html'' ENOENT) \<and>
   fst (main example_env example_fs_no_footer) =
     Panic (PathError ''open'' ''template/footer.html'' ENOENT) \<and>
   fst (main example_env example_fs_no_index) =
     Panic (PathError ''open'' ''template/index.html'' ENOENT) \<and>
   fst (main example_env example_fs_no_about) =
     Panic (PathError ''open'' ''template/about.html'' ENOENT)"
  by code_simp


text \<open>
  The three call sites in turn: without the footer the run panics at the post pages and
  no page exists; without the index template it panics at the index page, with the post
  page written; without the about template it panics at the about page, with the post
  page and the index page written.
\<close>

theorem template_load_failure_panics_witness:
  "template_missing_or_invalid example_env example_fs_no_footer ''template/footer.html'' \<and>
   ParsepostsMDToHTML example_env example_fs_no_footer [] =
     (example_fs_no_footer, Panics (PathError ''open'' ''template/footer.html'' ENOENT)) \<and>
   ParseIndexTemplateToHTML example_env example_fs_no_footer [] =
     (example_fs_no_footer, Panics (PathError ''open'' ''template/footer.html'' ENOENT)) \<and>
   ParseAboutPage example_env example_fs_no_footer =
     (example_fs_no_footer, Panics (PathError ''open'' ''template/footer.html'' ENOENT)) \<and>
   main example_env example_fs_no_footer =
     (Panic (PathError ''open'' ''template/footer.html'' ENOENT),
      outside example_fs_no_footer @
        [(''public'', Dir), (''public/posts'', Dir), (''public/style.css'', File ''body{}'')]) \<and>
   template_missing_or_invalid example_env example_fs_no_index ''template/index.html'' \<and>
   main example_env example_fs_no_index =
     (Panic (PathError ''open'' ''template/index.html'' ENOENT),
      outside example_fs_no_index @
        [(''public'', Dir), (''public/posts'', Dir), (''public/style.css'', File ''body{}''),
         (''public/posts/hello.html'', File ''<p># Hi</p>'')]) \<and>
   template_missing_or_invalid example_env example_fs_no_about ''template/about.html'' \<and>
   main example_env example_fs_no_about =
     (Panic (PathError ''open'' ''template/about.html'' ENOENT),
      outside example_fs_no_about @
        [(''public'', Dir), (''public/posts'', Dir), (''public/style.css'', File ''body{}''),
         (''public/posts/hello.html'', File ''<p># Hi</p>''),
         (''public/index.html'', File ''Hello;'')])"
proof -
  let ?E = example_env
  let ?P = "{''template/post.html'', ''template/header.html'', ''template/footer.html''}"
  let ?I = "{''template/index.html'', ''template/header.html'', ''template/footer.html''}"
  let ?A = "{''template/about.html'', ''template/header.html'', ''template/footer.html''}"
  let ?fs = example_fs_no_footer
  let ?fs1 = "outside ?fs"
  let ?fs2 = "?fs1 @ [(''public'', Dir)]"
  let ?fs3 = "?fs1 @ [(''public'', Dir), (''public/posts'', Dir)]"
  let ?fs4 = "?fs1 @
        [(''public'', Dir), (''public/posts'', Dir), (''public/style.css'', File ''body{}'')]"
  let ?posts = "fst (getAllpostData ?E ?fs4)"
  let ?e = "PathError ''open'' ''template/footer.html'' ENOENT"
  have bad: "template_missing_or_invalid ?E ?fs ''template/footer.html''"
    by code_simp
  have s1: "os_RemoveAll ?E ?fs ''public'' = Inr ?fs1"
    by code_simp
  have s2: "os_MkdirAll ?E ?fs1 ''public'' = Inr ?fs2"
    by code_simp
  have s3: "os_Mkdir ?E ?fs2 ''public/posts'' = Inr ?fs3"
    by code_simp
  have s4: "copyFile ?E ?fs3 ''static/style.css'' ''public/style.css'' = (?fs4, None)"
    by code_simp
  have s5: "getAllpostData ?E ?fs4 = (?posts, None)"
    by code_simp
  have a: "snd (ParsepostsMDToHTML ?E ?fs []) = Panics ?e"
    and b: "snd (ParseIndexTemplateToHTML ?E ?fs []) = Panics ?e"
    and c: "snd (ParseAboutPage ?E ?fs) = Panics ?e"
    and d: "fst (main ?E ?fs) = Panic ?e"
    by code_simp+
  have f: "''template/footer.html'' \<in> ?P" "''template/footer.html'' \<in> ?I"
    "''template/footer.html'' \<in> ?A"
    by simp_all
  note t = template_load_failure_panics [OF bad, of "[]" ?fs1 ?fs2 ?fs3 ?fs4 ?posts]
  have "\<exists>err. ParsepostsMDToHTML ?E ?fs [] = (?fs, Panics err)"
    using t [THEN conjunct1] f(1) by (rule mp)
  with a have 1: "ParsepostsMDToHTML ?E ?fs [] = (?fs, Panics ?e)"
    by (auto simp del: append.simps)
  have "\<exists>err. ParseIndexTemplateToHTML ?E ?fs [] = (?fs, Panics err)"
    using t [THEN conjunct2, THEN conjunct1] f(2) by (rule mp)
  with b have 2: "ParseIndexTemplateToHTML ?E ?fs [] = (?fs, Panics ?e)"
    by (auto simp del: append.simps)
  have "\<exists>err. ParseAboutPage ?E ?fs = (?fs, Panics err)"
    using t [THEN conjunct2, THEN conjunct2, THEN conjunct1] f(3) by (rule mp)
  with c have 3: "ParseAboutPage ?E ?fs = (?fs, Panics ?e)"
    by (auto simp del: append.simps)
  have "\<exists>err. main ?E ?fs = (Panic err, ?fs4)"
    using t [THEN conjunct2, THEN conjunct2, THEN conjunct2, THEN conjunct1]
    by (rule mp) (intro conjI f(1) s1 s2 s3 s4 s5)
  with d have 4: "main ?E ?fs = (Panic ?e, ?fs4)"
    by (auto simp del: append.simps)
  let ?gs = example_fs_no_index
  let ?gs1 = "outside ?gs"
  let ?gs2 = "?gs1 @ [(''public'', Dir)]"
  let ?gs3 = "?gs1 @ [(''public'', Dir), (''public/posts'', Dir)]"
  let ?gs4 = "?gs1 @
        [(''public'', Dir), (''public/posts'', Dir), (''public/style.css'', File ''body{}'')]"
  let ?gs5 = "?gs1 @
        [(''public'', Dir), (''public/posts'', Dir), (''public/style.css'', File ''body{}''),
         (''public/posts/hello.html'', File ''<p># Hi</p>'')]"
  let ?gposts = "fst (getAllpostData ?E ?gs4)"
  have gbad: "template_missing_or_invalid ?E ?gs ''template/index.html''"
    by code_simp
  have g1: "os_RemoveAll ?E ?gs ''public'' = Inr ?gs1"
    by code_simp
  have g2: "os_MkdirAll ?E ?gs1 ''public'' = Inr ?gs2"
    by code_simp
  have g3: "os_Mkdir ?E ?gs2 ''public/posts'' = Inr ?gs3"
    by code_simp
  have g4: "copyFile ?E ?gs3 ''static/style.css'' ''public/style.css'' = (?gs4, None)"
    by code_simp
  have g5: "getAllpostData ?E ?gs4 = (?gposts, None)"
    by code_simp
  have g6: "ParsepostsMDToHTML ?E ?gs4 (sort_Slice ?E date_After ?gposts) = (?gs5, Ret None)"
    by code_simp
  have gd: "fst (main ?E ?gs) = Panic (PathError ''open'' ''template/index.html'' ENOENT)"
    by code_simp
  have gf: "''template/index.html'' \<in> ?I"
    by simp
  have "\<exists>err. main ?E ?gs = (Panic err, ?gs5)"
    using template_load_failure_panics [OF gbad, of "[]" ?gs1 ?gs2 ?gs3 ?gs4 ?gposts ?gs5,
        THEN conjunct2, THEN conjunct2, THEN conjunct2, THEN conjunct2, THEN conjunct1]
    by (rule mp) (intro conjI gf g1 g2 g3 g4 g5 g6)
  with gd have 5: "main ?E ?gs = (Panic (PathError ''open'' ''template/index.html'' ENOENT), ?gs5)"
    by (auto simp del: append.simps)
  let ?hs = example_fs_no_about
  let ?hs1 = "outside ?hs"
  let ?hs2 = "?hs1 @ [(''public'', Dir)]"
  let ?hs3 = "?hs1 @ [(''public'', Dir), (''public/posts'', Dir)]"
  let ?hs4 = "?hs1 @
        [(''public'', Dir), (''public/posts'', Dir), (''public/style.css'', File ''body{}'')]"
  let ?hs5 = "?hs1 @
        [(''public'', Dir), (''public/posts'', Dir), (''public/style.css'', File ''body{}''),
         (''public/posts/hello.html'', File ''<p># Hi</p>'')]"
  let ?hs6 = "?hs1 @
        [(''public'', Dir), (''public/posts'', Dir), (''public/style.css'', File ''body{}''),
         (''public/posts/hello.html'', File ''<p># Hi</p>''),
         (''public/index.html'', File ''Hello;'')]"
  let ?hposts = "fst (getAllpostData ?E ?hs4)"
  have hbad: "template_missing_or_invalid ?E ?hs ''template/about.html''"
    by code_simp
  have h1: "os_RemoveAll ?E ?hs ''public'' = Inr ?hs1"
    by code_simp
  have h2: "os_MkdirAll ?E ?hs1 ''public'' = Inr ?hs2"
    by code_simp
  have h3: "os_Mkdir ?E ?hs2 ''public/posts'' = Inr ?hs3"
    by code_simp
  have h4: "copyFile ?E ?hs3 ''static/style.css'' ''public/style.css'' = (?hs4, None)"
    by code_simp
  have h5: "getAllpostData ?E ?hs4 = (?hposts, None)"
    by code_simp
  have h6: "ParsepostsMDToHTML ?E ?hs4 (sort_Slice ?E date_After ?hposts) = (?hs5, Ret None)"
    by code_simp
  have h7: "ParseIndexTemplateToHTML ?E ?hs5 (sort_Slice ?E date_After ?hposts) = (?hs6, Ret None)"
    by code_simp
  have hd: "fst (main ?E ?hs) = Panic (PathError ''open'' ''template/about.html'' ENOENT)"
    by code_simp
  have hf: "''template/about.html'' \<in> ?A"
    by simp
  have "\<exists>err. main ?E ?hs = (Panic err, ?hs6)"
    using template_load_failure_panics [OF hbad, of "[]" ?hs1 ?hs2 ?hs3 ?hs4 ?hposts ?hs5 ?hs6,
        THEN conjunct2, THEN conjunct2, THEN conjunct2, THEN conjunct2, THEN conjunct2]
    by (rule mp) (intro conjI hf h1 h2 h3 h4 h5 h6 h7)
  with hd have 6: "main ?E ?hs = (Panic (PathError ''open'' ''template/about.html'' ENOENT), ?hs6)"
    by (auto simp del: append.simps)
  from bad 1 2 3 4 gbad 5 hbad 6 show ?thesis
    by (intro conjI)
qed

section \<open>The about page\<close>

lemma map_of_Create:
  assumes "os_Create E fs p = Inr (fs1, f)"
  shows "f = p" and "map_of fs1 = (map_of fs)(p \<mapsto> File [])"
  using Create_Inr [OF assms] by (simp_all add: update_conv')

lemma map_of_Write:
  assumes "file_Write E fs f b = (fs', None)"
  shows "\<exists>c. map_of fs f = Some (File c) \<and> map_of fs' = (map_of fs)(f \<mapsto> File (c @ b))"
  using assms
  by (auto simp: file_Write_def update_conv' split: option.splits node.splits if_splits)

lemma map_of_tpl_Execute:
  assumes "tpl_Execute E fs tpl f d = (fs', None)"
  shows "\<exists>c. map_of fs f = Some (File c) \<and>
     map_of fs' = (map_of fs)(f \<mapsto> File (c @ fst (Execute E tpl d))) \<and>
     snd (Execute E tpl d) = None"
proof -
  obtain out xerr where x: "Execute E tpl d = (out, xerr)"
    by (cases "Execute E tpl d")
  obtain fs1 werr where w: "file_Write E fs f out = (fs1, werr)"
    by (cases "file_Write E fs f out")
  from assms x w have "werr = None" "xerr = None" "fs1 = fs'"
    by (auto simp: tpl_Execute_def split: option.splits)
  with w x map_of_Write [of E fs f out fs'] show ?thesis
    by auto
qed

lemma ParseAboutPage_Ret_None:
  assumes "ParseAboutPage E fs = (fs', Ret None)"
  shows "\<exists>tpl. ParseFiles E fs
           [''template/about.html'', ''template/header.html'', ''template/footer.html''] = Inr tpl \<and>
         map_of fs' = (map_of fs)(''public/about.html'' \<mapsto>
           File (fst (Execute E tpl (AboutPage \<lparr>Page = ''about'', Title = ''About me''\<rparr>)))) \<and>
         snd (Execute E tpl (AboutPage \<lparr>Page = ''about'', Title = ''About me''\<rparr>)) = None"
proof -
  let ?files = "[''template/about.html'', ''template/header.html'', ''template/footer.html'']"
  let ?data = "AboutPage \<lparr>Page = ''about'', Title = ''About me''\<rparr>"
  obtain tpl where tpl: "ParseFiles E fs ?files = Inr tpl"
    using assms by (cases "ParseFiles E fs ?files") (auto simp: ParseAboutPage_def Must_def)
  obtain fs1 f where c: "os_Create E fs ''public/about.html'' = Inr (fs1, f)"
    using assms tpl
    by (cases "os_Create E fs ''public/about.html''") (auto simp: ParseAboutPage_def Must_def)
  have x: "tpl_Execute E fs1 tpl f ?data = (fs', None)"
    using assms tpl c
    by (auto simp: ParseAboutPage_def Must_def Let_def split: prod.splits)
  from map_of_Create [OF c] map_of_tpl_Execute [OF x] tpl show ?thesis
    by auto
qed

lemma run_outside:
  assumes "os_RemoveAll E fs0 ''public'' = Inr fs1"
    and "os_MkdirAll E fs1 ''public'' = Inr fs2"
    and "os_Mkdir E fs2 ''public/posts'' = Inr fs3"
    and "copyFile E fs3 ''static/style.css'' ''public/style.css'' = (fs4, e)"
    and "ParsepostsMDToHTML E fs4 ps = (fs5, r5)"
    and "ParseIndexTemplateToHTML E fs5 ps = (fs6, r6)"
  shows "outside fs4 = outside fs0" and "outside fs5 = outside fs0" and "outside fs6 = outside fs0"
  using setup_outside [OF assms(1-4)] outside_ParsepostsMDToHTML [OF assms(5)]
    outside_ParseIndexTemplateToHTML [OF assms(6)]
  by simp_all

text \<open>
  C10. The about page is rendered from the constant record with page identifier
  \<open>about\<close> and title \<open>About me\<close>: after every successful run, from any tree and in any
  world, \<^verbatim>\<open>public/about.html\<close> holds exactly what executing the about layout (the three
  template files of the input tree) on that record prints. No post enters it.
\<close>

theorem about_page_constant_data:
  assumes "main E fs0 = (Exit0, fs')"
  shows "\<exists>tpl. ParseFiles E fs0
           [''template/about.html'', ''template/header.html'', ''template/footer.html''] = Inr tpl \<and>
         map_of fs' ''public/about.html'' =
           Some (File (fst (Execute E tpl (AboutPage \<lparr>Page = ''about'', Title = ''About me''\<rparr>)))) \<and>
         snd (Execute E tpl (AboutPage \<lparr>Page = ''about'', Title = ''About me''\<rparr>)) = None"
  using assms
proof (cases rule: main_cases)
  case (Done fs1 fs2 fs3 fs4 posts fs5 fs6)
  let ?files = "[''template/about.html'', ''template/header.html'', ''template/footer.html'']"
  have "outside fs6 = outside fs0"
    using run_outside(3) [OF Done(1-4) Done(6) Done(7)] .
  moreover have "\<forall>f \<in> set ?files. \<not> under ''public'' f"
    using not_under_template by auto
  ultimately have "ParseFiles E fs6 ?files = ParseFiles E fs0 ?files"
    by (rule ParseFiles_outside)
  with ParseAboutPage_Ret_None [OF Done(8)] show ?thesis
    by auto
qed simp_all

theorem about_page_constant_data_witness:
  "main example_env example_fs =
     (Exit0, outside example_fs @
       [(''public'', Dir), (''public/posts'', Dir), (''public/style.css'', File ''body{}''),
        (''public/posts/hello.html'', File ''<p># Hi</p>''),
        (''public/index.html'', File ''Hello;''),
        (''public/about.html'', File ''About me'')]) \<and>
   ParseFiles example_env example_fs
     [''template/about.html'', ''template/header.html'', ''template/footer.html''] =
     Inr (Template [(''about.html'', ''A''), (''header.html'', ''H''), (''footer.html'', ''F'')]) \<and>
   fst (Execute example_env
     (Template [(''about.html'', ''A''), (''header.html'', ''H''), (''footer.html'', ''F'')])
     (AboutPage \<lparr>Page = ''about'', Title = ''About me''\<rparr>)) = ''About me''"
proof -
  let ?fs' = "outside example_fs @
       [(''public'', Dir), (''public/posts'', Dir), (''public/style.css'', File ''body{}''),
        (''public/posts/hello.html'', File ''<p># Hi</p>''),
        (''public/index.html'', File ''Hello;''),
        (''public/about.html'', File ''About me'')]"
  let ?tpl = "Template [(''about.html'', ''A''), (''header.html'', ''H''), (''footer.html'', ''F'')]"
  have m: "main example_env example_fs = (Exit0, ?fs')"
    by code_simp
  have p: "ParseFiles example_env example_fs
     [''template/about.html'', ''template/header.html'', ''template/footer.html''] = Inr ?tpl"
    by code_simp
  from about_page_constant_data [OF m] p
  have "map_of ?fs' ''public/about.html'' =
      Some (File (fst (Execute example_env ?tpl (AboutPage \<lparr>Page = ''about'', Title = ''About me''\<rparr>))))"
    by auto
  moreover have "map_of ?fs' ''public/about.html'' = Some (File ''About me'')"
    by code_simp
  ultimately show ?thesis
    using m p by simp
qed

section \<open>A failed copy of the stylesheet\<close>

lemma update_absent: "map_of al k = None \<Longrightarrow> AList.update k v al = al @ [(k, v)]"
  by (induction al) (auto split: if_splits)

lemma update_last_snoc: "map_of al k = None \<Longrightarrow> AList.update k v (al @ [(k, w)]) = al @ [(k, v)]"
  by (induction al) (auto split: if_splits)

lemma setup_state:
  assumes "os_RemoveAll E fs0 ''public'' = Inr fs1"
    and "os_MkdirAll E fs1 ''public'' = Inr fs2"
    and "os_Mkdir E fs2 ''public/posts'' = Inr fs3"
  shows "fs1 = outside fs0"
    and "fs2 = outside fs0 @ [(''public'', Dir)]"
    and "fs3 = outside fs0 @ [(''public'', Dir), (''public/posts'', Dir)]"
proof -
  show 1: "fs1 = outside fs0"
    using assms(1) by (rule outside_RemoveAll)
  have "map_of (outside fs0) ''public'' = None"
    by (simp add: map_of_outside_under under_def)
  with assms(2) show 2: "fs2 = outside fs0 @ [(''public'', Dir)]"
    unfolding 1 os_MkdirAll_def path_ancestors_public by (auto split: if_splits)
  have "map_of (outside fs0) ''public/posts'' = None"
    by (simp add: map_of_outside_under under_public_public_posts)
  with assms(3) show "fs3 = outside fs0 @ [(''public'', Dir), (''public/posts'', Dir)]"
    unfolding 2 os_Mkdir_def by (auto split: if_splits option.splits)
qed

lemma copyFile_state:
  assumes none: "map_of fs dst = None"
    and copy: "copyFile E fs src dst = (fs', e)"
  shows "(fs' = fs \<and> e \<noteq> None) \<or>
         (\<exists>c. fs' = fs @ [(dst, File c)] \<and>
            (e \<noteq> None \<and> c = [] \<or>
             (\<exists>b. map_of fs src = Some (File b) \<and>
                (e \<noteq> None \<and> c = take (written E dst) b \<or> e = None \<and> c = b))))"
proof (cases "os_Open E fs src")
  case (Inl err)
  with copy show ?thesis by (auto simp: copyFile_def)
next
  case o: (Inr sourceFile)
  then have sf: "sourceFile = src" by (rule os_Open_Inr)
  have srcdst: "src \<noteq> dst"
    using o none by (auto simp: os_Open_def split: if_splits option.splits)
  show ?thesis
  proof (cases "os_Create E fs dst")
    case (Inl err)
    with copy o show ?thesis by (auto simp: copyFile_def)
  next
    case (Inr r)
    then have r: "r = (fs @ [(dst, File [])], dst)"
      using Create_Inr [of E fs dst r] none by (simp add: update_absent)
    let ?fs1 = "fs @ [(dst, File [])]"
    have c: "copyFile E fs src dst = io_Copy E ?fs1 dst src"
      using o sf Inr r by (auto simp: copyFile_def split: prod.splits option.splits)
    have msrc: "map_of ?fs1 src = map_of fs src"
      using srcdst by (simp add: map_add_def split: option.splits)
    have mdst: "map_of ?fs1 dst = Some (File [])"
      using none by (simp add: map_add_def)
    show ?thesis
    proof (cases "io_ReadAll E ?fs1 src")
      case (Inl err)
      with c copy have "fs' = ?fs1" "e \<noteq> None"
        by (auto simp: io_Copy_def)
      then show ?thesis by simp
    next
      case (Inr b)
      then have b: "map_of fs src = Some (File b)"
        using msrc by (auto simp: io_ReadAll_def split: if_splits option.splits node.splits)
      from Inr c copy have "file_Write E ?fs1 dst b = (fs', e)"
        by (simp add: io_Copy_def)
      then have "(e \<noteq> None \<and> fs' = fs @ [(dst, File (take (written E dst) b))]) \<or>
          (e = None \<and> fs' = fs @ [(dst, File b)])"
        using mdst none by (auto simp: file_Write_def update_last_snoc split: if_splits)
      with b show ?thesis by auto
    qed
  qed
qed

lemma not_under_static_style: "\<not> under ''public'' ''static/style.css''"
  by (simp add: under_def HasPrefix_def)

lemma copyFile_exact:
  assumes none: "map_of fs dst = None"
    and parent: "dir_exists fs (parent_dir dst)"
    and srcdst: "src \<noteq> dst"
  shows "copyFile E fs src dst =
    (if fault E (OpenOp src) then (fs, Some (PathError ''open'' src EIO))
     else if map_of fs src = None then (fs, Some (PathError ''open'' src ENOENT))
     else if fault E (CreateOp dst) then (fs, Some (PathError ''open'' dst EIO))
     else if fault E (ReadOp src)
       then (fs @ [(dst, File [])], Some (PathError ''read'' src EIO))
     else (case map_of fs src of
             Some (File b) \<Rightarrow>
               if fault E (WriteOp dst)
               then (fs @ [(dst, File (take (written E dst) b))],
                     Some (PathError ''write'' dst EIO))
               else (fs @ [(dst, File b)], None)
           | _ \<Rightarrow> (fs @ [(dst, File [])], Some (PathError ''read'' src EISDIR))))"
proof -
  let ?fs1 = "fs @ [(dst, File [])]"
  have msrc: "map_of ?fs1 src = map_of fs src"
    using srcdst by (simp add: map_add_def split: option.splits)
  have mdst: "map_of ?fs1 dst = Some (File [])"
    using none by (simp add: map_add_def)
  have u: "AList.update dst (File []) fs = ?fs1"
    using none by (rule update_absent)
  have w: "AList.update dst v ?fs1 = fs @ [(dst, v)]" for v
    using none by (rule update_last_snoc)
  show ?thesis
    by (auto simp: copyFile_def os_Open_def os_Create_def io_Copy_def io_ReadAll_def
        file_Write_def none parent u w msrc mdst
        split: option.splits node.splits)
qed


text \<open>
  C7, as amended. If copying the stylesheet fails, the run ends there with a fatal
  error, before any post is read or rendered. The output directory and its posts
  directory have been created before the copy, so what is left is the input tree
  outside the output directory and the two new directories, with no post page, index
  page or about page. When the stylesheet cannot be opened (it is missing) or the
  destination cannot be created, exactly that is left. When the copy fails after the
  destination was created, \<^verbatim>\<open>public/style.css\<close> is left as well: empty when the
  stylesheet cannot be read, otherwise holding the bytes written before the write
  failed.
\<close>

theorem failed_copy_state:
  assumes "os_RemoveAll E fs0 ''public'' = Inr fs1"
    and "os_MkdirAll E fs1 ''public'' = Inr fs2"
    and "os_Mkdir E fs2 ''public/posts'' = Inr fs3"
    and "copyFile E fs3 ''static/style.css'' ''public/style.css'' = (fs4, Some err)"
  shows "main E fs0 = (Fatal (Errorf ''Error copying styles: '' err), fs4) \<and>
         fs3 = outside fs0 @ [(''public'', Dir), (''public/posts'', Dir)] \<and>
         (fs4 = fs3 \<or>
          (\<exists>c. fs4 = fs3 @ [(''public/style.css'', File c)] \<and>
             (c = [] \<or>
              (\<exists>b. map_of fs0 ''static/style.css'' = Some (File b) \<and>
                 c = take (written E ''public/style.css'') b)))) \<and>
         (map_of fs0 ''static/style.css'' = None \<longrightarrow> fs4 = fs3) \<and>
         (fault E (OpenOp ''static/style.css'') \<or> map_of fs0 ''static/style.css'' = None \<or>
          fault E (CreateOp ''public/style.css'') \<longrightarrow> fs4 = fs3) \<and>
         (\<not> fault E (OpenOp ''static/style.css'') \<and> map_of fs0 ''static/style.css'' \<noteq> None \<and>
          \<not> fault E (CreateOp ''public/style.css'') \<longrightarrow>
            (fault E (ReadOp ''static/style.css'') \<or> map_of fs0 ''static/style.css'' = Some Dir \<longrightarrow>
               fs4 = fs3 @ [(''public/style.css'', File [])]) \<and>
            (\<forall>b. \<not> fault E (ReadOp ''static/style.css'') \<and>
                 map_of fs0 ''static/style.css'' = Some (File b) \<longrightarrow>
               fs4 = fs3 @ [(''public/style.css'', File (take (written E ''public/style.css'') b))]))"
proof -
  define S where "S = ''static/style.css''"
  define D where "D = ''public/style.css''"
  have m: "main E fs0 = (Fatal (Errorf ''Error copying styles: '' err), fs4)"
    using assms by (simp add: main_def)
  have fs3: "fs3 = outside fs0 @ [(''public'', Dir), (''public/posts'', Dir)]"
    using assms(1-3) by (rule setup_state(3))
  have none: "map_of fs3 D = None"
    unfolding fs3 D_def by (simp add: map_add_def map_of_outside_under under_public_style)
  have src: "map_of fs3 S = map_of fs0 S"
    unfolding fs3 S_def
    by (simp add: map_add_def map_of_outside not_under_static_style split: option.splits)
  have parent: "dir_exists fs3 (parent_dir D)"
  proof -
    have "map_of (outside fs0) ''public'' = None"
      by (simp add: map_of_outside_under under_def)
    then show ?thesis
      unfolding fs3 D_def by (simp add: dir_exists_def parent_dir_simps map_add_def)
  qed
  have sd: "S \<noteq> D"
    by (simp add: S_def D_def)
  have c: "copyFile E fs3 S D = (fs4, Some err)"
    using assms(4) by (simp add: S_def D_def)
  note x = copyFile_exact [OF none parent sd, of E, unfolded src c]
  have a: "fs4 = fs3 \<or>
          (\<exists>c. fs4 = fs3 @ [(D, File c)] \<and>
             (c = [] \<or> (\<exists>b. map_of fs0 S = Some (File b) \<and> c = take (written E D) b)))"
    using x by (auto split: if_splits option.splits node.splits)
  have b: "fault E (OpenOp S) \<or> map_of fs0 S = None \<or> fault E (CreateOp D) \<longrightarrow> fs4 = fs3"
    using x by (auto split: if_splits option.splits node.splits)
  have d: "fs4 = fs3 @ [(D, File [])]"
    if "\<not> fault E (OpenOp S)" "map_of fs0 S \<noteq> None" "\<not> fault E (CreateOp D)"
      "fault E (ReadOp S) \<or> map_of fs0 S = Some Dir"
    using x that by (auto split: if_splits option.splits node.splits)
  have e: "fs4 = fs3 @ [(D, File (take (written E D) b))]"
    if "\<not> fault E (OpenOp S)" "\<not> fault E (CreateOp D)"
      "\<not> fault E (ReadOp S)" "map_of fs0 S = Some (File b)" for b
    using x that by (auto split: if_splits option.splits node.splits)
  have b': "map_of fs0 S = None \<longrightarrow> fs4 = fs3"
    using b by simp
  have de: "\<not> fault E (OpenOp S) \<and> map_of fs0 S \<noteq> None \<and> \<not> fault E (CreateOp D) \<longrightarrow>
            (fault E (ReadOp S) \<or> map_of fs0 S = Some Dir \<longrightarrow> fs4 = fs3 @ [(D, File [])]) \<and>
            (\<forall>b. \<not> fault E (ReadOp S) \<and> map_of fs0 S = Some (File b) \<longrightarrow>
               fs4 = fs3 @ [(D, File (take (written E D) b))])"
    using d e by simp
  from m fs3 a b' b de show ?thesis
    unfolding S_def D_def by (intro conjI)
qed


text \<open>
  The four ways: the disk fills up after three bytes, the stylesheet is missing, the
  destination cannot be created, the stylesheet is a directory.
\<close>

theorem failed_copy_state_witness:
  "main example_env_disk_full example_fs =
     (Fatal (Errorf ''Error copying styles: '' (PathError ''write'' ''public/style.css'' EIO)),
      outside example_fs @
        [(''public'', Dir), (''public/posts'', Dir), (''public/style.css'', File ''bod'')]) \<and>
   map_of example_fs ''static/style.css'' = Some (File ''body{}'') \<and>
   written example_env_disk_full ''public/style.css'' = 3 \<and>
   map_of example_fs_no_style ''static/style.css'' = None \<and>
   main example_env example_fs_no_style =
     (Fatal (Errorf ''Error copying styles: '' (PathError ''open'' ''static/style.css'' ENOENT)),
      outside example_fs_no_style @ [(''public'', Dir), (''public/posts'', Dir)]) \<and>
   fault example_env_no_create (CreateOp ''public/style.css'') \<and>
   main example_env_no_create example_fs =
     (Fatal (Errorf ''Error copying styles: '' (PathError ''open'' ''public/style.css'' EIO)),
      outside example_fs @ [(''public'', Dir), (''public/posts'', Dir)]) \<and>
   map_of example_fs_style_dir ''static/style.css'' = Some Dir \<and>
   main example_env example_fs_style_dir =
     (Fatal (Errorf ''Error copying styles: '' (PathError ''read'' ''static/style.css'' EISDIR)),
      outside example_fs_style_dir @
        [(''public'', Dir), (''public/posts'', Dir), (''public/style.css'', File [])])"
proof -
  let ?E = example_env_disk_full
  let ?fs1 = "outside example_fs"
  let ?fs2 = "?fs1 @ [(''public'', Dir)]"
  let ?fs3 = "?fs1 @ [(''public'', Dir), (''public/posts'', Dir)]"
  let ?fs4 = "?fs1 @
        [(''public'', Dir), (''public/posts'', Dir), (''public/style.css'', File ''bod'')]"
  have s1: "os_RemoveAll ?E example_fs ''public'' = Inr ?fs1"
    by code_simp
  have s2: "os_MkdirAll ?E ?fs1 ''public'' = Inr ?fs2"
    by code_simp
  have s3: "os_Mkdir ?E ?fs2 ''public/posts'' = Inr ?fs3"
    by code_simp
  have s4: "copyFile ?E ?fs3 ''static/style.css'' ''public/style.css'' =
      (?fs4, Some (PathError ''write'' ''public/style.css'' EIO))"
    by code_simp
  have a: "map_of example_fs ''static/style.css'' = Some (File ''body{}'')"
    and b: "written example_env_disk_full ''public/style.css'' = 3"
    by code_simp+
  have 1: "main ?E example_fs =
      (Fatal (Errorf ''Error copying styles: '' (PathError ''write'' ''public/style.css'' EIO)),
       ?fs4)"
    using failed_copy_state [OF s1 s2 s3 s4] by (rule conjunct1)
  let ?gs1 = "outside example_fs_no_style"
  let ?gs2 = "?gs1 @ [(''public'', Dir)]"
  let ?gs3 = "?gs1 @ [(''public'', Dir), (''public/posts'', Dir)]"
  have t1: "os_RemoveAll example_env example_fs_no_style ''public'' = Inr ?gs1"
    by code_simp
  have t2: "os_MkdirAll example_env ?gs1 ''public'' = Inr ?gs2"
    by code_simp
  have t3: "os_Mkdir example_env ?gs2 ''public/posts'' = Inr ?gs3"
    by code_simp
  have t4: "copyFile example_env ?gs3 ''static/style.css'' ''public/style.css'' =
      (?gs3, Some (PathError ''open'' ''static/style.css'' ENOENT))"
    by code_simp
  have c: "map_of example_fs_no_style ''static/style.css'' = None"
    by code_simp
  have 2: "main example_env example_fs_no_style =
      (Fatal (Errorf ''Error copying styles: '' (PathError ''open'' ''static/style.css'' ENOENT)),
       ?gs3)"
    using failed_copy_state [OF t1 t2 t3 t4] by (rule conjunct1)
  let ?N = example_env_no_create
  have u1: "os_RemoveAll ?N example_fs ''public'' = Inr ?fs1"
    by code_simp
  have u2: "os_MkdirAll ?N ?fs1 ''public'' = Inr ?fs2"
    by code_simp
  have u3: "os_Mkdir ?N ?fs2 ''public/posts'' = Inr ?fs3"
    by code_simp
  have u4: "copyFile ?N ?fs3 ''static/style.css'' ''public/style.css'' =
      (?fs3, Some (PathError ''open'' ''public/style.css'' EIO))"
    by code_simp
  have d: "fault ?N (CreateOp ''public/style.css'')"
    by code_simp
  have 3: "main ?N example_fs =
      (Fatal (Errorf ''Error copying styles: '' (PathError ''open'' ''public/style.css'' EIO)),
       ?fs3)"
    using failed_copy_state [OF u1 u2 u3 u4] by (rule conjunct1)
  let ?hs1 = "outside example_fs_style_dir"
  let ?hs2 = "?hs1 @ [(''public'', Dir)]"
  let ?hs3 = "?hs1 @ [(''public'', Dir), (''public/posts'', Dir)]"
  let ?hs4 = "?hs1 @
        [(''public'', Dir), (''public/posts'', Dir), (''public/style.css'', File [])]"
  have v1: "os_RemoveAll example_env example_fs_style_dir ''public'' = Inr ?hs1"
    by code_simp
  have v2: "os_MkdirAll example_env ?hs1 ''public'' = Inr ?hs2"
    by code_simp
  have v3: "os_Mkdir example_env ?hs2 ''public/posts'' = Inr ?hs3"
    by code_simp
  have v4: "copyFile example_env ?hs3 ''static/style.css'' ''public/style.css'' =
      (?hs4, Some (PathError ''read'' ''static/style.css'' EISDIR))"
    by code_simp
  have e: "map_of example_fs_style_dir ''static/style.css'' = Some Dir"
    by code_simp
  have 4: "main example_env example_fs_style_dir =
      (Fatal (Errorf ''Error copying styles: '' (PathError ''read'' ''static/style.css'' EISDIR)),
       ?hs4)"
    using failed_copy_state [OF v1 v2 v3 v4] by (rule conjunct1)
  from 1 a b c 2 d 3 e 4 show ?thesis
    by (intro conjI)
qed

text \<open>
  The claim as stated, that exactly the two empty directories are left, is false: when
  the disk fills up during the copy, or when the source is a directory, the run leaves
  a \<^verbatim>\<open>public/style.css\<close> behind.
\<close>

theorem failed_copy_state_counterexample:
  "main example_env_disk_full example_fs =
     (Fatal (Errorf ''Error copying styles: '' (PathError ''write'' ''public/style.css'' EIO)),
      outside example_fs @
        [(''public'', Dir), (''public/posts'', Dir), (''public/style.css'', File ''bod'')]) \<and>
   main example_env example_fs_style_dir =
     (Fatal (Errorf ''Error copying styles: '' (PathError ''read'' ''static/style.css'' EISDIR)),
      outside example_fs_style_dir @
        [(''public'', Dir), (''public/posts'', Dir), (''public/style.css'', File [])]) \<and>
   snd (main example_env_disk_full example_fs) \<noteq>
     outside example_fs @ [(''public'', Dir), (''public/posts'', Dir)] \<and>
   snd (main example_env example_fs_style_dir) \<noteq>
     outside example_fs_style_dir @ [(''public'', Dir), (''public/posts'', Dir)]"
  by code_simp

section \<open>A post that fails to load\<close>

lemma getAllpostData_loop_fails:
  "f \<in> set filenames \<Longrightarrow> post_load_fails E fs f \<Longrightarrow>
   snd (getAllpostData_loop E fs filenames posts) \<noteq> None"
proof (induction filenames arbitrary: posts)
  case Nil
  then show ?case by simp
next
  case (Cons filename filenames)
  show ?case
  proof (cases "f = filename")
    case True
    with Cons.prems(2) show ?thesis
      by (auto simp: post_load_fails_def getpostData_def slug_of_def Let_def
          split: sum.splits prod.splits)
  next
    case False
    with Cons.prems have "f \<in> set filenames" by simp
    then have "snd (getAllpostData_loop E fs filenames posts') \<noteq> None" for posts'
      using Cons.IH Cons.prems(2) by blast
    then show ?thesis
      by (simp add: Let_def split: sum.splits prod.splits option.splits)
  qed
qed

lemma post_load_fails_outside:
  "outside fs = outside fs2 \<Longrightarrow> post_load_fails E fs f = post_load_fails E fs2 f"
  by (simp add: post_load_fails_def Read_outside [of fs fs2])

lemma MkdirAll_state:
  assumes "os_MkdirAll E (outside fs0) ''public'' = Inr fs2"
  shows "fs2 = outside fs0 @ [(''public'', Dir)]"
proof -
  have "map_of (outside fs0) ''public'' = None"
    by (simp add: map_of_outside_under under_def)
  with assms show ?thesis
    unfolding os_MkdirAll_def path_ancestors_public by (auto split: if_splits)
qed

text \<open>
  C6. If any one of the discovered posts fails at one of its load steps (reading,
  splitting the front matter, converting the body), the whole run ends with a fatal
  error and nothing is rendered: either the tree is untouched (the output directory
  could not even be removed), or the output directory holds at most the two new
  directories and the stylesheet. No post is skipped and no page of another post, no
  index page and no about page is written.
\<close>

theorem one_failing_post_aborts:
  assumes "filename \<in> set (Glob fs0)" and "post_load_fails E fs0 filename"
  shows "(\<exists>err. fst (main E fs0) = Fatal err) \<and>
         (snd (main E fs0) = fs0 \<or>
          (\<exists>out. snd (main E fs0) = outside fs0 @ out \<and>
             set (map fst out) \<subseteq> {''public'', ''public/posts'', ''public/style.css''}))"
proof -
  obtain x fs' where m: "main E fs0 = (x, fs')"
    by (cases "main E fs0")
  have loaded: False
    if s: "os_RemoveAll E fs0 ''public'' = Inr fs1" "os_MkdirAll E fs1 ''public'' = Inr fs2"
      "os_Mkdir E fs2 ''public/posts'' = Inr fs3"
      "copyFile E fs3 ''static/style.css'' ''public/style.css'' = (fs4, None)"
      and g: "getAllpostData E fs4 = (posts, None)"
    for fs1 fs2 fs3 fs4 posts
  proof -
    have o: "outside fs4 = outside fs0"
      using s by (rule setup_outside)
    then have "filename \<in> set (Glob fs4)" "post_load_fails E fs4 filename"
      using assms by (simp_all add: Glob_outside_eq [of fs4 fs0] post_load_fails_outside [of fs4 fs0])
    then have "snd (getAllpostData E fs4) \<noteq> None"
      unfolding getAllpostData_def by (rule getAllpostData_loop_fails)
    with g show False by simp
  qed
  have copied: "fs4 = fs3 \<or> (\<exists>c. fs4 = fs3 @ [(''public/style.css'', File c)])"
    if s: "os_RemoveAll E fs0 ''public'' = Inr fs1" "os_MkdirAll E fs1 ''public'' = Inr fs2"
      "os_Mkdir E fs2 ''public/posts'' = Inr fs3"
      and c: "copyFile E fs3 ''static/style.css'' ''public/style.css'' = (fs4, e)"
    for fs1 fs2 fs3 fs4 e
  proof -
    have "map_of fs3 ''public/style.css'' = None"
      unfolding setup_state(3) [OF s]
      by (simp add: map_add_def map_of_outside_under under_public_style)
    from copyFile_state [OF this c] show ?thesis by auto
  qed
  from m have "(\<exists>err. x = Fatal err) \<and>
         (fs' = fs0 \<or>
          (\<exists>out. fs' = outside fs0 @ out \<and>
             set (map fst out) \<subseteq> {''public'', ''public/posts'', ''public/style.css''}))"
  proof (cases rule: main_cases)
    case (RemoveAll err)
    then show ?thesis by simp
  next
    case (MkdirAll fs1 err)
    then show ?thesis
      using outside_RemoveAll [OF MkdirAll(1)] by simp
  next
    case (Mkdir fs1 fs2 err)
    have "fs1 = outside fs0"
      using Mkdir(1) by (rule outside_RemoveAll)
    with Mkdir(2) have "fs2 = outside fs0 @ [(''public'', Dir)]"
      by (simp add: MkdirAll_state)
    with Mkdir show ?thesis
      by simp
  next
    case (Copy fs1 fs2 fs3 err)
    have "fs3 = outside fs0 @ [(''public'', Dir), (''public/posts'', Dir)]"
      using Copy(1-3) by (rule setup_state(3))
    with copied [OF Copy(1-4)] Copy(5) show ?thesis
      by auto
  next
    case (Load fs1 fs2 fs3 fs4 posts err)
    have "fs3 = outside fs0 @ [(''public'', Dir), (''public/posts'', Dir)]"
      using Load(1-3) by (rule setup_state(3))
    with copied [OF Load(1-4)] Load(6,7) show ?thesis
      by auto
  next
    case (PostsPanic fs1 fs2 fs3 fs4 posts err)
    then show ?thesis using loaded by blast
  next
    case (PostsError fs1 fs2 fs3 fs4 posts err)
    then show ?thesis using loaded by blast
  next
    case (IndexPanic fs1 fs2 fs3 fs4 posts fs5 err)
    then show ?thesis using loaded by blast
  next
    case (IndexError fs1 fs2 fs3 fs4 posts fs5 err)
    then show ?thesis using loaded by blast
  next
    case (AboutPanic fs1 fs2 fs3 fs4 posts fs5 fs6 err)
    then show ?thesis using loaded by blast
  next
    case (AboutError fs1 fs2 fs3 fs4 posts fs5 fs6 err)
    then show ?thesis using loaded by blast
  next
    case (Done fs1 fs2 fs3 fs4 posts fs5 fs6)
    then show ?thesis using loaded by blast
  qed
  with m show ?thesis by simp
qed


theorem one_failing_post_aborts_witness:
  "Glob example_fs_bad_post = [''posts/hello.md'', ''posts/zz.md''] \<and>
   \<not> post_load_fails example_env example_fs_bad_post ''posts/hello.md'' \<and>
   post_load_fails example_env example_fs_bad_post ''posts/zz.md'' \<and>
   main example_env example_fs_bad_post =
     (Fatal (Errorf ''post parse error: '' (LibraryError ''front matter'')),
      outside example_fs_bad_post @
        [(''public'', Dir), (''public/posts'', Dir), (''public/style.css'', File ''body{}'')])"
proof -
  have g: "Glob example_fs_bad_post = [''posts/hello.md'', ''posts/zz.md'']"
    by code_simp
  have ok: "\<not> post_load_fails example_env example_fs_bad_post ''posts/hello.md''"
    by code_simp
  have bad: "post_load_fails example_env example_fs_bad_post ''posts/zz.md''"
    by code_simp
  have m: "main example_env example_fs_bad_post =
     (Fatal (Errorf ''post parse error: '' (LibraryError ''front matter'')),
      outside example_fs_bad_post @
        [(''public'', Dir), (''public/posts'', Dir), (''public/style.css'', File ''body{}'')])"
    by code_simp
  have "''posts/zz.md'' \<in> set (Glob example_fs_bad_post)"
    unfolding g by simp
  from one_failing_post_aborts [OF this bad] g ok bad m show ?thesis
    by simp
qed

section \<open>The pages of a successful run\<close>

lemma Glob_match_decompose:
  assumes "Glob_match p"
  shows "p = ''posts/'' @ slug_of p @ ''.md''"
proof -
  from assms obtain x where x: "p = ''posts/'' @ x" and suf: "HasSuffix x ''.md''"
    unfolding Glob_match_def HasPrefix_iff by auto
  from suf obtain y where y: "x = y @ ''.md''"
    unfolding HasSuffix_iff by auto
  have "TrimPrefix p ''posts/'' = x"
    unfolding x by (simp add: TrimPrefix_def HasPrefix_def)
  moreover have "TrimSuffix x ''.md'' = y"
    unfolding y by (simp add: TrimSuffix_def HasSuffix_def)
  ultimately have "slug_of p = y"
    by (simp add: slug_of_def)
  with x y show ?thesis by simp
qed

lemma set_Glob: "f \<in> set (Glob fs) \<Longrightarrow> Glob_match f"
  by (auto simp: Glob_def split: if_splits)

lemma posts_loop_map:
  "ParsepostsMDToHTML_loop E tpl fs ps = (fs', None) \<Longrightarrow>
   map_of fs' = foldl (put_page E tpl) (map_of fs) ps"
proof (induction ps arbitrary: fs)
  case Nil
  then show ?case by simp
next
  case (Cons post ps)
  define path where "path = ''public/posts/'' @ Slug (Metadata post) @ ''.html''"
  have step: "ParsepostsMDToHTML_loop E tpl fs (post # ps) =
     (case os_Create E fs path of
        Inl err \<Rightarrow> (fs, Some (Errorf ''HTML File creation error: '' err))
      | Inr (fs1, f) \<Rightarrow>
          (case tpl_Execute E fs1 tpl f (PostPage post) of
             (fs2, Some err) \<Rightarrow> (fs2, Some (Errorf ''Tempalate Execute error: '' err))
           | (fs2, None) \<Rightarrow> ParsepostsMDToHTML_loop E tpl fs2 ps))"
    unfolding path_def by simp
  obtain fs1 f where c: "os_Create E fs path = Inr (fs1, f)"
    using Cons.prems step by (cases "os_Create E fs path") auto
  obtain fs2 where x: "tpl_Execute E fs1 tpl f (PostPage post) = (fs2, None)"
    and rest: "ParsepostsMDToHTML_loop E tpl fs2 ps = (fs', None)"
    using Cons.prems step c
    by (cases "tpl_Execute E fs1 tpl f (PostPage post)") (auto split: option.splits)
  have "map_of fs2 = put_page E tpl (map_of fs) post"
    using map_of_Create [OF c] map_of_tpl_Execute [OF x]
    by (auto simp: put_page_def page_path_def path_def)
  with Cons.IH [OF rest] show ?case by simp
qed

lemma dom_foldl_put_page:
  "dom (foldl (put_page E tpl) m ps) = dom m \<union> page_path ` set ps"
  by (induction ps arbitrary: m) (auto simp: put_page_def)

lemma foldl_put_page_other:
  "q \<notin> page_path ` set ps \<Longrightarrow> foldl (put_page E tpl) m ps q = m q"
  by (induction ps arbitrary: m) (auto simp: put_page_def)

lemma foldl_put_page_file:
  "post \<in> set ps \<Longrightarrow> \<exists>c. foldl (put_page E tpl) m ps (page_path post) = Some (File c)"
proof (induction ps arbitrary: m post)
  case Nil
  then show ?case by simp
next
  case (Cons p ps)
  show ?case
  proof (cases "page_path post \<in> page_path ` set ps")
    case True
    then obtain post' where "post' \<in> set ps" "page_path post' = page_path post"
      by auto
    with Cons.IH [of post' "put_page E tpl m p"] show ?thesis by auto
  next
    case False
    with Cons.prems have "page_path post = page_path p"
      by auto
    with False show ?thesis
      by (simp add: foldl_put_page_other) (simp add: put_page_def)
  qed
qed

lemma foldl_put_page_distinct:
  "distinct (map page_path ps) \<Longrightarrow> post \<in> set ps \<Longrightarrow>
   foldl (put_page E tpl) m ps (page_path post) = Some (File (fst (Execute E tpl (PostPage post))))"
proof (induction ps arbitrary: m)
  case Nil
  then show ?case by simp
next
  case (Cons p ps)
  show ?case
  proof (cases "post \<in> set ps")
    case True
    with Cons show ?thesis by simp
  next
    case False
    with Cons.prems have "post = p" "page_path p \<notin> page_path ` set ps"
      by auto
    then show ?thesis
      by (simp add: foldl_put_page_other) (simp add: put_page_def)
  qed
qed

lemma ParsepostsMDToHTML_Ret_None:
  assumes "ParsepostsMDToHTML E fs ps = (fs', Ret None)"
  shows "\<exists>tpl. ParseFiles E fs
           [''template/post.html'', ''template/header.html'', ''template/footer.html''] = Inr tpl \<and>
         map_of fs' = foldl (put_page E tpl) (map_of fs) ps"
proof -
  let ?files = "[''template/post.html'', ''template/header.html'', ''template/footer.html'']"
  obtain tpl where tpl: "ParseFiles E fs ?files = Inr tpl"
    using assms by (cases "ParseFiles E fs ?files") (auto simp: ParsepostsMDToHTML_def Must_def)
  have "ParsepostsMDToHTML_loop E tpl fs ps = (fs', None)"
    using assms tpl by (auto simp: ParsepostsMDToHTML_def Must_def split: prod.splits)
  from posts_loop_map [OF this] tpl show ?thesis by simp
qed

lemma ParseIndexTemplateToHTML_Ret_None:
  assumes "ParseIndexTemplateToHTML E fs ps = (fs', Ret None)"
  shows "\<exists>tpl. ParseFiles E fs
           [''template/index.html'', ''template/header.html'', ''template/footer.html''] = Inr tpl \<and>
         map_of fs' = (map_of fs)(''public/index.html'' \<mapsto>
           File (fst (Execute E tpl (IndexPage \<lparr>Posts = ps, Page = ''index''\<rparr>)))) \<and>
         snd (Execute E tpl (IndexPage \<lparr>Posts = ps, Page = ''index''\<rparr>)) = None"
proof -
  let ?files = "[''template/index.html'', ''template/header.html'', ''template/footer.html'']"
  let ?data = "IndexPage \<lparr>Posts = ps, Page = ''index''\<rparr>"
  obtain tpl where tpl: "ParseFiles E fs ?files = Inr tpl"
    using assms
    by (cases "ParseFiles E fs ?files") (auto simp: ParseIndexTemplateToHTML_def Must_def)
  obtain fs1 f where c: "os_Create E fs ''public/index.html'' = Inr (fs1, f)"
    using assms tpl
    by (cases "os_Create E fs ''public/index.html''")
      (auto simp: ParseIndexTemplateToHTML_def Must_def)
  have x: "tpl_Execute E fs1 tpl f ?data = (fs', None)"
    using assms tpl c
    by (auto simp: ParseIndexTemplateToHTML_def Must_def Let_def split: prod.splits option.splits)
  from map_of_Create [OF c] map_of_tpl_Execute [OF x] tpl show ?thesis
    by auto
qed


lemma copyFile_None_state:
  assumes "map_of fs dst = None" and "copyFile E fs src dst = (fs', None)"
  shows "\<exists>b. map_of fs src = Some (File b) \<and> fs' = fs @ [(dst, File b)]"
  using copyFile_state [OF assms] by auto

lemma main_Exit0_map:
  assumes "main E fs0 = (Exit0, fs')"
  shows "\<exists>b posts tp ti ta.
     getAllpostData E fs0 = (posts, None) \<and>
     map_of fs0 ''static/style.css'' = Some (File b) \<and>
     ParseFiles E fs0
       [''template/post.html'', ''template/header.html'', ''template/footer.html''] = Inr tp \<and>
     ParseFiles E fs0
       [''template/index.html'', ''template/header.html'', ''template/footer.html''] = Inr ti \<and>
     ParseFiles E fs0
       [''template/about.html'', ''template/header.html'', ''template/footer.html''] = Inr ta \<and>
     map_of fs' =
       (foldl (put_page E tp)
          (map_of (outside fs0 @
             [(''public'', Dir), (''public/posts'', Dir), (''public/style.css'', File b)]))
          (sort_Slice E date_After posts))
       (''public/index.html'' \<mapsto>
          File (fst (Execute E ti
            (IndexPage \<lparr>Posts = sort_Slice E date_After posts, Page = ''index''\<rparr>))),
        ''public/about.html'' \<mapsto>
          File (fst (Execute E ta (AboutPage \<lparr>Page = ''about'', Title = ''About me''\<rparr>))))"
  using assms
proof (cases rule: main_cases)
  case (Done fs1 fs2 fs3 fs4 posts fs5 fs6)
  let ?ps = "sort_Slice E date_After posts"
  let ?fp = "[''template/post.html'', ''template/header.html'', ''template/footer.html'']"
  let ?fi = "[''template/index.html'', ''template/header.html'', ''template/footer.html'']"
  let ?fa = "[''template/about.html'', ''template/header.html'', ''template/footer.html'']"
  note o = run_outside [OF Done(1-4) Done(6) Done(7)]
  have fs3: "fs3 = outside fs0 @ [(''public'', Dir), (''public/posts'', Dir)]"
    using Done(1-3) by (rule setup_state(3))
  have none: "map_of fs3 ''public/style.css'' = None"
    unfolding fs3 by (simp add: map_add_def map_of_outside_under under_public_style)
  have src: "map_of fs3 ''static/style.css'' = map_of fs0 ''static/style.css''"
    unfolding fs3
    by (simp add: map_add_def map_of_outside not_under_static_style split: option.splits)
  from copyFile_None_state [OF none Done(4)] src fs3
  obtain b where b: "map_of fs0 ''static/style.css'' = Some (File b)"
    and fs4: "fs4 = outside fs0 @
       [(''public'', Dir), (''public/posts'', Dir), (''public/style.css'', File b)]"
    by auto
  have g: "getAllpostData E fs0 = (posts, None)"
    using Done(5) getAllpostData_outside [OF o(1), of E] by simp
  have nu: "\<forall>f \<in> set ?fp. \<not> under ''public'' f" "\<forall>f \<in> set ?fi. \<not> under ''public'' f"
    "\<forall>f \<in> set ?fa. \<not> under ''public'' f"
    using not_under_template by auto
  from ParsepostsMDToHTML_Ret_None [OF Done(6)]
  obtain tp where tp: "ParseFiles E fs0 ?fp = Inr tp"
    and m5: "map_of fs5 = foldl (put_page E tp) (map_of fs4) ?ps"
    using ParseFiles_outside [OF o(1) nu(1), of E] by auto
  from ParseIndexTemplateToHTML_Ret_None [OF Done(7)]
  obtain ti where ti: "ParseFiles E fs0 ?fi = Inr ti"
    and m6: "map_of fs6 = (map_of fs5)(''public/index.html'' \<mapsto>
           File (fst (Execute E ti (IndexPage \<lparr>Posts = ?ps, Page = ''index''\<rparr>))))"
    using ParseFiles_outside [OF o(2) nu(2), of E] by auto
  from ParseAboutPage_Ret_None [OF Done(8)]
  obtain ta where ta: "ParseFiles E fs0 ?fa = Inr ta"
    and m7: "map_of fs' = (map_of fs6)(''public/about.html'' \<mapsto>
           File (fst (Execute E ta (AboutPage \<lparr>Page = ''about'', Title = ''About me''\<rparr>))))"
    using ParseFiles_outside [OF o(3) nu(3), of E] by auto
  from g b tp ti ta m7 show ?thesis
    unfolding m6 m5 fs4 by blast
qed simp_all


lemma getAllpostData_slugs:
  assumes "getAllpostData E fs = (posts, None)"
  shows "map (\<lambda>p. Slug (Metadata p)) posts = map slug_of (Glob fs)"
  using assms getAllpostData_loop_slugs [of E fs "Glob fs" "[]"]
    getAllpostData_loop_complete [of E fs "Glob fs" "[]"]
  by (simp add: getAllpostData_def)

lemma page_path_neq:
  "page_path post \<noteq> ''public/index.html''" "page_path post \<noteq> ''public/about.html''"
  by (simp_all add: page_path_def)

lemma HasPrefix_public_posts:
  assumes "HasPrefix p ''public/posts/''"
  shows "under ''public'' p" "p \<noteq> ''public/index.html''" "p \<noteq> ''public/about.html''"
    "p \<noteq> ''public''" "p \<noteq> ''public/posts''" "p \<noteq> ''public/style.css''"
proof -
  from assms obtain x where "p = ''public/posts/'' @ x"
    unfolding HasPrefix_iff by auto
  then show "under ''public'' p" "p \<noteq> ''public/index.html''" "p \<noteq> ''public/about.html''"
    "p \<noteq> ''public''" "p \<noteq> ''public/posts''" "p \<noteq> ''public/style.css''"
    by (simp_all add: under_def HasPrefix_def)
qed

lemma distinct_page_path:
  "distinct (map page_path ps) \<longleftrightarrow> distinct (map (\<lambda>p. Slug (Metadata p)) ps)"
proof -
  have "map page_path ps =
      map (\<lambda>s. ''public/posts/'' @ s @ ''.html'') (map (\<lambda>p. Slug (Metadata p)) ps)"
    by (simp add: page_path_def)
  moreover have "inj (\<lambda>s::string. ''public/posts/'' @ s @ ''.html'')"
    by (simp add: inj_on_def)
  ultimately show ?thesis
    by (simp only: distinct_map) (auto intro: inj_on_subset)
qed

lemma distinct_Glob: "distinct (map fst fs) \<Longrightarrow> distinct (Glob fs)"
  by (simp add: Glob_def distinct_map_filter)

lemma inj_on_slug_of: "inj_on slug_of (set (Glob fs))"
proof (rule inj_onI)
  fix x y
  assume "x \<in> set (Glob fs)" "y \<in> set (Glob fs)" "slug_of x = slug_of y"
  then show "x = y"
    using Glob_match_decompose [OF set_Glob, of x fs] Glob_match_decompose [OF set_Glob, of y fs]
    by simp
qed

text \<open>
  C2. After a successful run, every discovered post source file \<^verbatim>\<open>posts/<slug>.md\<close> has
  its page at exactly \<^verbatim>\<open>public/posts/<slug>.html\<close>, where the slug is the file name
  without the directory prefix and the extension; and these are the only paths below
  \<^verbatim>\<open>public/posts/\<close>. When the tree lists every path once, the page at that path holds
  what executing the post layout on that post's record prints.
\<close>

theorem post_page_paths:
  assumes "sort_Slice_contract (sort_Slice E)" and "main E fs0 = (Exit0, fs')"
  shows "(\<forall>filename \<in> set (Glob fs0).
            filename = ''posts/'' @ slug_of filename @ ''.md'' \<and>
            (\<exists>c. map_of fs' (''public/posts/'' @ slug_of filename @ ''.html'') = Some (File c))) \<and>
         (\<forall>p. HasPrefix p ''public/posts/'' \<and> map_of fs' p \<noteq> None \<longrightarrow>
            (\<exists>filename \<in> set (Glob fs0). p = ''public/posts/'' @ slug_of filename @ ''.html'')) \<and>
         (distinct (map fst fs0) \<longrightarrow>
            (\<exists>tpl. ParseFiles E fs0
                [''template/post.html'', ''template/header.html'', ''template/footer.html''] =
                Inr tpl \<and>
              (\<forall>post \<in> set (fst (getAllpostData E fs0)).
                 map_of fs' (''public/posts/'' @ Slug (Metadata post) @ ''.html'') =
                   Some (File (fst (Execute E tpl (PostPage post)))))))"
proof -
  from main_Exit0_map [OF assms(2)]
  obtain b posts tp ti ta where
    g: "getAllpostData E fs0 = (posts, None)" and
    tp: "ParseFiles E fs0
       [''template/post.html'', ''template/header.html'', ''template/footer.html''] = Inr tp" and
    m: "map_of fs' =
       (foldl (put_page E tp)
          (map_of (outside fs0 @
             [(''public'', Dir), (''public/posts'', Dir), (''public/style.css'', File b)]))
          (sort_Slice E date_After posts))
       (''public/index.html'' \<mapsto>
          File (fst (Execute E ti
            (IndexPage \<lparr>Posts = sort_Slice E date_After posts, Page = ''index''\<rparr>))),
        ''public/about.html'' \<mapsto>
          File (fst (Execute E ta (AboutPage \<lparr>Page = ''about'', Title = ''About me''\<rparr>))))"
    by blast
  let ?ps = "sort_Slice E date_After posts"
  let ?m4 = "map_of (outside fs0 @
             [(''public'', Dir), (''public/posts'', Dir), (''public/style.css'', File b)])"
  have perm: "mset ?ps = mset posts"
    using assms(1) strict_weak_order_date_After unfolding sort_Slice_contract_def by blast
  then have set_ps: "set ?ps = set posts"
    by (rule mset_eq_setD)
  have slugs: "(\<lambda>p. Slug (Metadata p)) ` set posts = slug_of ` set (Glob fs0)"
    using getAllpostData_slugs [OF g] by (metis set_map)
  have pages: "page_path ` set ?ps =
      (\<lambda>filename. ''public/posts/'' @ slug_of filename @ ''.html'') ` set (Glob fs0)"
  proof -
    have "page_path ` set posts =
        (\<lambda>s. ''public/posts/'' @ s @ ''.html'') ` (\<lambda>p. Slug (Metadata p)) ` set posts"
      by (auto simp: page_path_def image_iff)
    also have "\<dots> = (\<lambda>s. ''public/posts/'' @ s @ ''.html'') ` slug_of ` set (Glob fs0)"
      by (simp only: slugs)
    finally show ?thesis
      unfolding set_ps by (simp add: image_image)
  qed
  have at_page: "map_of fs' (page_path post) = foldl (put_page E tp) ?m4 ?ps (page_path post)"
    for post
    unfolding m using page_path_neq [of post] by simp
  show ?thesis
  proof (intro conjI ballI allI impI)
    fix filename
    assume f: "filename \<in> set (Glob fs0)"
    then show "filename = ''posts/'' @ slug_of filename @ ''.md''"
      by (intro Glob_match_decompose set_Glob)
    from f pages obtain post where post: "post \<in> set ?ps"
      and pp: "page_path post = ''public/posts/'' @ slug_of filename @ ''.html''"
      by (metis (no_types, lifting) image_iff)
    from foldl_put_page_file [OF post, of E tp ?m4] at_page [of post] pp
    show "\<exists>c. map_of fs' (''public/posts/'' @ slug_of filename @ ''.html'') = Some (File c)"
      by auto
  next
    fix p
    assume p: "HasPrefix p ''public/posts/'' \<and> map_of fs' p \<noteq> None"
    note facts = HasPrefix_public_posts [OF conjunct1 [OF p]]
    have "map_of fs' p = foldl (put_page E tp) ?m4 ?ps p"
      unfolding m using facts by simp
    with p have "p \<in> dom (foldl (put_page E tp) ?m4 ?ps)"
      by auto
    then have "p \<in> dom ?m4 \<or> p \<in> page_path ` set ?ps"
      unfolding dom_foldl_put_page by simp
    moreover have "p \<notin> dom ?m4"
      using facts by (auto simp: map_add_def map_of_outside_under split: option.splits if_splits)
    ultimately have "p \<in> page_path ` set ?ps"
      by simp
    then show "\<exists>filename \<in> set (Glob fs0). p = ''public/posts/'' @ slug_of filename @ ''.html''"
      unfolding pages by auto
  next
    assume d: "distinct (map fst fs0)"
    have "distinct (map slug_of (Glob fs0))"
      using distinct_Glob [OF d] inj_on_slug_of by (simp add: distinct_map)
    then have "distinct (map (\<lambda>p. Slug (Metadata p)) posts)"
      using getAllpostData_slugs [OF g] by simp
    then have "distinct (map page_path posts)"
      by (simp add: distinct_page_path)
    with perm have dp: "distinct (map page_path ?ps)"
      by (rule distinct_map_mset_eq)
    have "map_of fs' (''public/posts/'' @ Slug (Metadata post) @ ''.html'') =
        Some (File (fst (Execute E tp (PostPage post))))"
      if "post \<in> set (fst (getAllpostData E fs0))" for post
    proof -
      from that g set_ps have "post \<in> set ?ps"
        by simp
      from foldl_put_page_distinct [OF dp this, of E tp ?m4] at_page [of post]
      show ?thesis
        by (simp add: page_path_def)
    qed
    with tp show "\<exists>tpl. ParseFiles E fs0
          [''template/post.html'', ''template/header.html'', ''template/footer.html''] = Inr tpl \<and>
        (\<forall>post \<in> set (fst (getAllpostData E fs0)).
           map_of fs' (''public/posts/'' @ Slug (Metadata post) @ ''.html'') =
             Some (File (fst (Execute E tpl (PostPage post)))))"
      by blast
  qed
qed


theorem post_page_paths_witness:
  "sort_Slice_contract (sort_Slice example_env) \<and>
   distinct (map fst example_fs_two_posts) \<and>
   Glob example_fs_two_posts = [''posts/hello.md'', ''posts/second.md''] \<and>
   main example_env example_fs_two_posts =
     (Exit0, outside example_fs_two_posts @
        [(''public'', Dir), (''public/posts'', Dir), (''public/style.css'', File ''body{}''),
         (''public/posts/second.html'', File ''<p>text</p>''),
         (''public/posts/hello.html'', File ''<p># Hi</p>''),
         (''public/index.html'', File ''Second post;Hello;''),
         (''public/about.html'', File ''About me'')]) \<and>
   ''posts/second.md'' = ''posts/'' @ slug_of ''posts/second.md'' @ ''.md'' \<and>
   slug_of ''posts/second.md'' = ''second''"
proof -
  let ?fs' = "outside example_fs_two_posts @
        [(''public'', Dir), (''public/posts'', Dir), (''public/style.css'', File ''body{}''),
         (''public/posts/second.html'', File ''<p>text</p>''),
         (''public/posts/hello.html'', File ''<p># Hi</p>''),
         (''public/index.html'', File ''Second post;Hello;''),
         (''public/about.html'', File ''About me'')]"
  have c: "sort_Slice_contract (sort_Slice example_env)"
    using insertionSort_contract [where ?'a = PostData] by (simp add: example_env_def)
  have d: "distinct (map fst example_fs_two_posts)"
    by code_simp
  have g: "Glob example_fs_two_posts = [''posts/hello.md'', ''posts/second.md'']"
    by code_simp
  have m: "main example_env example_fs_two_posts = (Exit0, ?fs')"
    by code_simp
  have s: "slug_of ''posts/second.md'' = ''second''"
    by code_simp
  have "''posts/second.md'' \<in> set (Glob example_fs_two_posts)"
    unfolding g by simp
  with post_page_paths [OF c m]
  have "''posts/second.md'' = ''posts/'' @ slug_of ''posts/second.md'' @ ''.md''"
    by blast
  with c d g m s show ?thesis
    by simp
qed

section \<open>The order of the posts\<close>





text \<open>
  C1. For every list of loaded posts whose publication dates are pairwise distinct, the
  sort step of \<^verbatim>\<open>main\<close> (any sort with the library's documented behaviour, called with
  the closure of lines 69 to 71) leaves the same posts in strictly descending date
  order, newest first: every post is dated after every post that follows it. This list
  is the one the index page is rendered from: after a successful run
  \<^verbatim>\<open>public/index.html\<close> holds what executing the index layout on it prints.
\<close>

theorem index_newest_first:
  assumes "sort_Slice_contract (sort_Slice E)"
    and "distinct (map (\<lambda>p. Date (Metadata p)) postsData)"
  shows "sorted_wrt date_After (sort_Slice E date_After postsData) \<and>
         mset (sort_Slice E date_After postsData) = mset postsData \<and>
         (main E fs0 = (Exit0, fs') \<and> getAllpostData E fs0 = (postsData, None) \<longrightarrow>
            (\<exists>tpl. ParseFiles E fs0
                [''template/index.html'', ''template/header.html'', ''template/footer.html''] =
                Inr tpl \<and>
              map_of fs' ''public/index.html'' =
                Some (File (fst (Execute E tpl
                  (IndexPage \<lparr>Posts = sort_Slice E date_After postsData, Page = ''index''\<rparr>))))))"
proof -
  let ?ys = "sort_Slice E date_After postsData"
  have perm: "mset ?ys = mset postsData"
    and sorted: "sorted_wrt (\<lambda>a b. \<not> date_After b a) ?ys"
    using assms(1) strict_weak_order_date_After
    unfolding sort_Slice_contract_def by blast+
  have "distinct (map (\<lambda>p. Date (Metadata p)) ?ys)"
    using perm assms(2) by (rule distinct_map_mset_eq)
  with sorted have
    "sorted_wrt (\<lambda>a b. \<not> date_After b a \<and> Date (Metadata a) \<noteq> Date (Metadata b)) ?ys"
    by (rule sorted_wrt_distinct_key)
  then have desc: "sorted_wrt date_After ?ys"
  proof (rule sorted_wrt_mono_rel [rotated])
    fix a b
    assume "\<not> date_After b a \<and> Date (Metadata a) \<noteq> Date (Metadata b)"
    then show "date_After a b"
      using After_total unfolding date_After_def by blast
  qed
  have "\<exists>tpl. ParseFiles E fs0
          [''template/index.html'', ''template/header.html'', ''template/footer.html''] = Inr tpl \<and>
        map_of fs' ''public/index.html'' =
          Some (File (fst (Execute E tpl (IndexPage \<lparr>Posts = ?ys, Page = ''index''\<rparr>))))"
    if m: "main E fs0 = (Exit0, fs')" and g: "getAllpostData E fs0 = (postsData, None)"
    using main_Exit0_map [OF m] g by auto
  with desc perm show ?thesis
    by blast
qed

text \<open>
  The scenario of the specification, two posts of different dates: the newer post,
  discovered second, is listed first.
\<close>

theorem index_newest_first_witness:
  "sort_Slice_contract (sort_Slice example_env) \<and>
   getAllpostData example_env example_fs_two_posts =
     ([\<lparr>Metadata = \<lparr>Slug = ''hello'', Title = ''Hello'', Description = [],
          Date = \<lparr>sec = 5, nsec = 0\<rparr>, Language = [], Tags = []\<rparr>,
        Content = ''<p># Hi</p>'', Page = []\<rparr>,
       \<lparr>Metadata = \<lparr>Slug = ''second'', Title = ''Second post'', Description = [],
          Date = \<lparr>sec = 11, nsec = 0\<rparr>, Language = [], Tags = []\<rparr>,
        Content = ''<p>text</p>'', Page = []\<rparr>], None) \<and>
   map (\<lambda>p. Slug (Metadata p)) (sort_Slice example_env date_After
     (fst (getAllpostData example_env example_fs_two_posts))) = [''second'', ''hello''] \<and>
   sorted_wrt date_After (sort_Slice example_env date_After
     (fst (getAllpostData example_env example_fs_two_posts))) \<and>
   fst (main example_env example_fs_two_posts) = Exit0 \<and>
   map_of (snd (main example_env example_fs_two_posts)) ''public/index.html'' =
     Some (File ''Second post;Hello;'')"
proof -
  let ?posts = "[\<lparr>Metadata = \<lparr>Slug = ''hello'', Title = ''Hello'', Description = [],
          Date = \<lparr>sec = 5, nsec = 0\<rparr>, Language = [], Tags = []\<rparr>,
        Content = ''<p># Hi</p>'', Page = []\<rparr>,
       \<lparr>Metadata = \<lparr>Slug = ''second'', Title = ''Second post'', Description = [],
          Date = \<lparr>sec = 11, nsec = 0\<rparr>, Language = [], Tags = []\<rparr>,
        Content = ''<p>text</p>'', Page = []\<rparr>]"
  have c: "sort_Slice_contract (sort_Slice example_env)"
    using insertionSort_contract [where ?'a = PostData] by (simp add: example_env_def)
  have g: "getAllpostData example_env example_fs_two_posts = (?posts, None)"
    by code_simp
  have d: "distinct (map (\<lambda>p. Date (Metadata p)) ?posts)"
    by simp
  have s: "map (\<lambda>p. Slug (Metadata p)) (sort_Slice example_env date_After ?posts) =
      [''second'', ''hello'']"
    by code_simp
  have x: "fst (main example_env example_fs_two_posts) = Exit0"
    and i: "map_of (snd (main example_env example_fs_two_posts)) ''public/index.html'' =
     Some (File ''Second post;Hello;'')"
    by code_simp+
  from index_newest_first [OF c d]
  have "sorted_wrt date_After (sort_Slice example_env date_After ?posts)"
    by blast
  with c g s x i show ?thesis
    by simp
qed

end
